theory Spec2Isabelle
  imports Main "HOL-Library.Multiset" "HOL-Library.Sublist"
begin

section \<open>Data model\<close>

text \<open>
  The script is a Node program: it reads \<open>process.argv\<close>, talks to the hosting
  platform through octokit and ends with an exit status. The model below follows the
  functions of the script one by one. A JavaScript value that may be \<open>undefined\<close>
  (or \<open>null\<close>) is an \<open>option\<close>; strings are character lists.
\<close>

text \<open>The object pushed onto \<open>options\<close> in \<open>processArguments\<close>: \<open>{ name, tag, draft }\<close>.\<close>

record cli_option =
  name :: "string option"
  tag :: "string option"
  draft :: bool

text \<open>
  The object returned by \<open>processOptionPart\<close>: exactly one of the three properties
  is set, the others read as \<open>undefined\<close>. The property that is set may itself hold
  \<open>undefined\<close> (a part without a colon).
\<close>

record option_part =
  part_tag :: "string option"
  part_name :: "string option"
  part_draft :: "bool option"

text \<open>The entries of the listings the platform returns, with the fields the script reads.\<close>

record release =
  release_id :: nat
  release_name :: string
  release_tag_name :: string
  release_draft :: bool

record repo_tag =
  tag_name :: string
  tag_commit_sha :: string

text \<open>The octokit calls of the script, with the arguments that vary (owner and repo are fixed).\<close>

datatype call =
    ListReleases
  | ListTags
  | DeleteRelease nat
  | DeleteRef string
  | CreateRelease "string option" "string option" bool
  | CreateRef string "string option"
  | GetBranch string

text \<open>What the process does that the outside can see, in order: a call or a pause.\<close>

datatype event = Call call | Delay nat

text \<open>
  The messages of the script that matter for its result. Each constructor stands for one
  template string of the source, and carries the values the template interpolates.
\<close>

datatype message =
    UnexpectedOptionPart string
  | UnsupportedCommand "string option"
  | ExpectedTagOrRelease cli_option
  | NoOptionsSupplied
  | UnexpectedOption cli_option
  | TagsNotFound "cli_option list"
  | ReleasesNotFound "cli_option list"

text \<open>
  The two ways a run stops early: \<open>process.exit\<close> with a status (after the message went
  to \<open>console.error\<close>), or a rejected promise of an octokit call, which nothing catches.
\<close>

datatype halt = ProcessExit nat message | Unhandled call

text \<open>
  The hosting platform as the script meets it. Each listing is requested at most once in
  a run, so its reply is a fixed value (\<open>data\<close> may be missing); \<open>rejects\<close> says,
  from the events so far, whether the next call fails.
\<close>

record github =
  listReleases_data :: "release list option"
  listTags_data :: "repo_tag list option"
  getBranch_sha :: string
  rejects :: "event list \<Rightarrow> call \<Rightarrow> bool"

text \<open>The state of the process: the events so far, what \<open>console.log\<close> reported of the
  checks, and \<open>process.exitCode\<close>.\<close>

record proc =
  trace :: "event list"
  printed :: "message list"
  exitCode :: nat

type_synonym 'a io = "proc \<Rightarrow> (halt + 'a) \<times> proc"

definition start :: proc where
  "start = \<lparr>trace = [], printed = [], exitCode = 0\<rparr>"

section \<open>Sequencing\<close>

definition return :: "'a \<Rightarrow> 'a io" where
  "return a s = (Inr a, s)"

text \<open>\<open>await m\<close> followed by the rest of the function; a halt skips the rest.\<close>

definition await :: "'a io \<Rightarrow> ('a \<Rightarrow> 'b io) \<Rightarrow> 'b io" where
  "await m f s = (case m s of (Inl h, s') \<Rightarrow> (Inl h, s') | (Inr a, s') \<Rightarrow> f a s')"

text \<open>A function that may call \<open>logAndQuit\<close> but touches nothing else.\<close>

definition lift :: "halt + 'a \<Rightarrow> 'a io" where
  "lift r s = (r, s)"

section \<open>The script\<close>

text \<open>
  The model starts where \<open>run\<close> starts: the lookups of \<open>OWNER\<close>, \<open>REPO\<close> and
  \<open>TOKEN\<close> at the top of the script have succeeded, and owner and repo are the same in
  every call. Progress lines written with \<open>console.log\<close> are left out; the messages
  that decide or report the result of a run are kept.
\<close>

definition logAndQuit :: "message \<Rightarrow> halt + 'a" where
  "logAndQuit m = Inl (ProcessExit 1 m)"

definition API_DELAY_MS :: nat where
  "API_DELAY_MS = 2500"

definition SUPPORTED_COMMANDS :: "string list" where
  "SUPPORTED_COMMANDS = [''create'', ''check'']"

text \<open>\<open>String.prototype.split\<close> with a one-character separator: the pieces between
  separators, one piece for a string with none (also for the empty string).\<close>

fun js_split :: "char \<Rightarrow> string \<Rightarrow> string list" where
  "js_split sep [] = [[]]"
| "js_split sep (c # cs) =
     (if c = sep then [] # js_split sep cs
      else (case js_split sep cs of
              [] \<Rightarrow> [[c]]
            | w # ws \<Rightarrow> (c # w) # ws))"

text \<open>Reading an array at an index: \<open>undefined\<close> past the end.\<close>

fun at_index :: "'a list \<Rightarrow> nat \<Rightarrow> 'a option" where
  "at_index [] i = None"
| "at_index (x # xs) 0 = Some x"
| "at_index (x # xs) (Suc i) = at_index xs i"

text \<open>Truthiness of a string that may be \<open>undefined\<close>: defined and not empty.\<close>

definition truthy :: "string option \<Rightarrow> bool" where
  "truthy v = (case v of None \<Rightarrow> False | Some str \<Rightarrow> str \<noteq> [])"

definition processOptionPart :: "string \<Rightarrow> halt + option_part" where
  "processOptionPart option =
     (let pieces = js_split CHR '':'' option;
          nm = at_index pieces 0;
          val = at_index pieces 1
      in if nm = Some ''tag'' then
           Inr \<lparr>part_tag = val, part_name = None, part_draft = None\<rparr>
         else if nm = Some ''rel'' then
           Inr \<lparr>part_tag = None, part_name = val, part_draft = None\<rparr>
         else if nm = Some ''dft'' then
           Inr \<lparr>part_tag = None, part_name = None, part_draft = Some (val = Some ''true'')\<rparr>
         else logAndQuit (UnexpectedOptionPart option))"

definition isTagOption :: "cli_option \<Rightarrow> bool" where
  "isTagOption option = (truthy (tag option) \<and> \<not> truthy (name option) \<and> \<not> draft option)"

definition isReleaseOption :: "cli_option \<Rightarrow> bool" where
  "isReleaseOption option = truthy (name option)"

text \<open>\<open>Array.prototype.map\<close> with a callback that may quit: the first quit ends the map.\<close>

fun map_quit :: "('a \<Rightarrow> halt + 'b) \<Rightarrow> 'a list \<Rightarrow> halt + 'b list" where
  "map_quit f [] = Inr []"
| "map_quit f (x # xs) =
     (case f x of
        Inl h \<Rightarrow> Inl h
      | Inr y \<Rightarrow> (case map_quit f xs of Inl h \<Rightarrow> Inl h | Inr ys \<Rightarrow> Inr (y # ys)))"

text \<open>The three \<open>find(...)?.field\<close> lines of the loop body of \<open>processArguments\<close>.\<close>

definition assemble :: "option_part list \<Rightarrow> cli_option" where
  "assemble processedOptions =
     \<lparr>name = (case find (\<lambda>it. part_name it \<noteq> None) processedOptions of
                None \<Rightarrow> None | Some it \<Rightarrow> part_name it),
      tag = (case find (\<lambda>it. part_tag it \<noteq> None) processedOptions of
                None \<Rightarrow> None | Some it \<Rightarrow> part_tag it),
      draft = (case (case find (\<lambda>it. part_draft it \<noteq> None) processedOptions of
                       None \<Rightarrow> None | Some it \<Rightarrow> part_draft it) of
                 None \<Rightarrow> False | Some d \<Rightarrow> d)\<rparr>"

text \<open>The body of the loop over \<open>rawOptions\<close>.\<close>

definition processRawOption :: "string \<Rightarrow> halt + cli_option" where
  "processRawOption rawOption =
     (case map_quit processOptionPart (js_split CHR '','' rawOption) of
        Inl h \<Rightarrow> Inl h
      | Inr processedOptions \<Rightarrow> Inr (assemble processedOptions))"

text \<open>\<open>argv\<close> is \<open>process.argv\<close>: the interpreter, the script, the command, the raw options.\<close>

definition processArguments :: "string list \<Rightarrow> halt + (string option \<times> cli_option list)" where
  "processArguments argv =
     (let command = at_index argv 2 in
      if command \<notin> set (map Some SUPPORTED_COMMANDS) then
        logAndQuit (UnsupportedCommand command)
      else
        (case map_quit processRawOption (drop 3 argv) of
           Inl h \<Rightarrow> Inl h
         | Inr options \<Rightarrow>
             (case find (\<lambda>option. \<not> isTagOption option \<and> \<not> isReleaseOption option) options of
                Some option \<Rightarrow> logAndQuit (ExpectedTagOrRelease option)
              | None \<Rightarrow> Inr (command, options))))"

text \<open>An octokit call: it is issued, then its promise is rejected or resolves to the reply.\<close>

definition octokit :: "github \<Rightarrow> call \<Rightarrow> 'a \<Rightarrow> 'a io" where
  "octokit gh c reply s =
     (let s' = s\<lparr>trace := trace s @ [Call c]\<rparr>
      in if rejects gh (trace s) c then (Inl (Unhandled c), s') else (Inr reply, s'))"

definition delay :: "nat \<Rightarrow> unit io" where
  "delay timeoutMs s = (Inr (), s\<lparr>trace := trace s @ [Delay timeoutMs]\<rparr>)"

definition consoleLog :: "message \<Rightarrow> unit io" where
  "consoleLog m s = (Inr (), s\<lparr>printed := printed s @ [m]\<rparr>)"

definition setExitCode :: "nat \<Rightarrow> unit io" where
  "setExitCode n s = (Inr (), s\<lparr>exitCode := n\<rparr>)"

definition loadExistingReleases :: "github \<Rightarrow> release list io" where
  "loadExistingReleases gh =
     await (octokit gh ListReleases (listReleases_data gh))
       (\<lambda>data. return (case data of None \<Rightarrow> [] | Some existingReleases \<Rightarrow> existingReleases))"

definition loadExistingTags :: "github \<Rightarrow> repo_tag list io" where
  "loadExistingTags gh =
     await (octokit gh ListTags (listTags_data gh))
       (\<lambda>data. return (case data of None \<Rightarrow> [] | Some existingTags \<Rightarrow> existingTags))"

fun deleteReleases :: "github \<Rightarrow> release list \<Rightarrow> unit io" where
  "deleteReleases gh [] = return ()"
| "deleteReleases gh (r # existingReleases) =
     await (octokit gh (DeleteRelease (release_id r)) ())
       (\<lambda>_. await (delay API_DELAY_MS) (\<lambda>_. deleteReleases gh existingReleases))"

definition deleteExistingReleases :: "github \<Rightarrow> unit io" where
  "deleteExistingReleases gh =
     await (loadExistingReleases gh)
       (\<lambda>existingReleases. await (delay API_DELAY_MS)
          (\<lambda>_. deleteReleases gh existingReleases))"

fun deleteTags :: "github \<Rightarrow> repo_tag list \<Rightarrow> unit io" where
  "deleteTags gh [] = return ()"
| "deleteTags gh (t # existingTags) =
     await (octokit gh (DeleteRef (''tags/'' @ tag_name t)) ())
       (\<lambda>_. await (delay API_DELAY_MS) (\<lambda>_. deleteTags gh existingTags))"

definition deleteExistingTags :: "github \<Rightarrow> unit io" where
  "deleteExistingTags gh =
     await (loadExistingTags gh)
       (\<lambda>existingTags. await (delay API_DELAY_MS)
          (\<lambda>_. deleteTags gh existingTags))"

text \<open>A template string prints a missing value as \<open>undefined\<close>.\<close>

definition interpolate :: "string option \<Rightarrow> string" where
  "interpolate v = (case v of None \<Rightarrow> ''undefined'' | Some str \<Rightarrow> str)"

definition createRelease :: "github \<Rightarrow> cli_option \<Rightarrow> unit io" where
  "createRelease gh option =
     octokit gh (CreateRelease (tag option) (name option) (draft option)) ()"

definition createTag :: "github \<Rightarrow> cli_option \<Rightarrow> string option \<Rightarrow> unit io" where
  "createTag gh option commitSha =
     octokit gh (CreateRef (''refs/tags/'' @ interpolate (tag option)) commitSha) ()"

fun applyOptions :: "github \<Rightarrow> string option \<Rightarrow> cli_option list \<Rightarrow> unit io" where
  "applyOptions gh tagCommitSha [] = return ()"
| "applyOptions gh tagCommitSha (option # options) =
     await (if isReleaseOption option then createRelease gh option
            else if isTagOption option then createTag gh option tagCommitSha
            else lift (logAndQuit (UnexpectedOption option)))
       (\<lambda>_. await (delay API_DELAY_MS) (\<lambda>_. applyOptions gh tagCommitSha options))"

definition runCreate :: "github \<Rightarrow> cli_option list \<Rightarrow> unit io" where
  "runCreate gh options =
     await (deleteExistingReleases gh) (\<lambda>_.
     await (deleteExistingTags gh) (\<lambda>_.
     let hasTagOptions = list_ex isTagOption options in
     await (if hasTagOptions
            then await (octokit gh (GetBranch ''main'') (getBranch_sha gh)) (\<lambda>sha. return (Some sha))
            else return None) (\<lambda>tagCommitSha.
     applyOptions gh tagCommitSha options)))"

text \<open>The options of \<open>checkReleases\<close> that \<open>existingReleases.find\<close> does not find.\<close>

definition notFoundReleases :: "release list \<Rightarrow> cli_option list \<Rightarrow> cli_option list" where
  "notFoundReleases existingReleases options =
     filter (\<lambda>option.
        find (\<lambda>release. Some (release_tag_name release) = tag option
                      \<and> Some (release_name release) = name option
                      \<and> release_draft release = draft option) existingReleases = None) options"

definition checkReleases :: "github \<Rightarrow> cli_option list \<Rightarrow> message option io" where
  "checkReleases gh options =
     await (loadExistingReleases gh) (\<lambda>existingReleases.
       let notFound = notFoundReleases existingReleases options in
       if length notFound > 0 then return (Some (ReleasesNotFound notFound))
       else return None)"

definition notFoundTags :: "repo_tag list \<Rightarrow> cli_option list \<Rightarrow> cli_option list" where
  "notFoundTags existingTags options =
     filter (\<lambda>option.
        find (\<lambda>t. Some (tag_name t) = tag option) existingTags = None) options"

definition checkTags :: "github \<Rightarrow> cli_option list \<Rightarrow> message option io" where
  "checkTags gh options =
     await (loadExistingTags gh) (\<lambda>existingTags.
       let notFound = notFoundTags existingTags options in
       if length notFound > 0 then return (Some (TagsNotFound notFound))
       else return None)"

text \<open>\<open>if (tagOptions)\<close> tests an array, and every array is truthy, also the empty one.\<close>

definition array_truthy :: "'a list \<Rightarrow> bool" where
  "array_truthy xs = True"

definition runChecks :: "github \<Rightarrow> cli_option list \<Rightarrow> unit io" where
  "runChecks gh options =
     (let tagOptions = filter isTagOption options;
          releaseOptions = filter isReleaseOption options
      in
      await (if array_truthy tagOptions then
               await (checkTags gh tagOptions) (\<lambda>errorMessage.
                 case errorMessage of
                   Some m \<Rightarrow> await (consoleLog m) (\<lambda>_. return True)
                 | None \<Rightarrow> return False)
             else return False) (\<lambda>hasError1.
      await (if array_truthy releaseOptions then
               await (checkReleases gh releaseOptions) (\<lambda>errorMessage.
                 case errorMessage of
                   Some m \<Rightarrow> await (consoleLog m) (\<lambda>_. return True)
                 | None \<Rightarrow> return hasError1)
             else return hasError1) (\<lambda>hasError.
      if hasError then setExitCode 1 else return ())))"

definition run :: "github \<Rightarrow> string list \<Rightarrow> unit io" where
  "run gh argv =
     await (lift (processArguments argv)) (\<lambda>(command, options).
       await (if length options = 0 then lift (logAndQuit NoOptionsSupplied) else return ())
         (\<lambda>_. if command = Some ''create'' then runCreate gh options
              else if command = Some ''check'' then runChecks gh options
              else return ()))"

text \<open>The exit status of a run that ended by itself or by \<open>process.exit\<close>; a rejected
  promise ends the process in a way that the runtime decides.\<close>

definition exitStatus :: "(halt + unit) \<times> proc \<Rightarrow> nat option" where
  "exitStatus r =
     (case fst r of
        Inl (ProcessExit n m) \<Rightarrow> Some n
      | Inl (Unhandled c) \<Rightarrow> None
      | Inr u \<Rightarrow> Some (exitCode (snd r)))"

section \<open>Notions used in the statements\<close>

text \<open>The listings as the script sees them: a missing \<open>data\<close> reads as the empty array.\<close>

definition existingReleases :: "github \<Rightarrow> release list" where
  "existingReleases gh = (case listReleases_data gh of None \<Rightarrow> [] | Some rs \<Rightarrow> rs)"

definition existingTags :: "github \<Rightarrow> repo_tag list" where
  "existingTags gh = (case listTags_data gh of None \<Rightarrow> [] | Some ts \<Rightarrow> ts)"

text \<open>
  The sequence of events of a create run that reaches its end: the listing of the
  releases and a delete call for each listed release, the listing of the tags and a delete
  call for each listed tag, the resolution of the tip of \<open>main\<close> when some option is a
  tag option, and a create call for each option (a release for a release option, a tag at
  the resolved commit otherwise); with a pause after each listing, each delete call and
  each create call.
\<close>

definition createSequence :: "github \<Rightarrow> cli_option list \<Rightarrow> event list" where
  "createSequence gh options =
     [Call ListReleases, Delay API_DELAY_MS]
     @ concat (map (\<lambda>r. [Call (DeleteRelease (release_id r)), Delay API_DELAY_MS])
                 (existingReleases gh))
     @ [Call ListTags, Delay API_DELAY_MS]
     @ concat (map (\<lambda>t. [Call (DeleteRef (''tags/'' @ tag_name t)), Delay API_DELAY_MS])
                 (existingTags gh))
     @ (if list_ex isTagOption options then [Call (GetBranch ''main'')] else [])
     @ concat (map (\<lambda>option.
          [Call (if isReleaseOption option
                 then CreateRelease (tag option) (name option) (draft option)
                 else CreateRef (''refs/tags/'' @ interpolate (tag option))
                        (Some (getBranch_sha gh))),
           Delay API_DELAY_MS]) options)"

text \<open>A platform on which every call of the run succeeds.\<close>

definition neverRejects :: "github \<Rightarrow> bool" where
  "neverRejects gh = (\<forall>tr c. \<not> rejects gh tr c)"

text \<open>A repository with one release and one tag, whose default branch is at \<open>f00\<close>.\<close>

definition example_repo :: github where
  "example_repo =
     \<lparr>listReleases_data =
        Some [\<lparr>release_id = 7, release_name = ''R1'', release_tag_name = ''v1'',
               release_draft = True\<rparr>],
      listTags_data = Some [\<lparr>tag_name = ''v1'', tag_commit_sha = ''abc''\<rparr>],
      getBranch_sha = ''f00'',
      rejects = (\<lambda>tr c. False)\<rparr>"

text \<open>The key and the value of a part: the first two pieces of the part split at colons.\<close>

definition part_key :: "string \<Rightarrow> string option" where
  "part_key part = at_index (js_split CHR '':'' part) 0"

definition part_value :: "string \<Rightarrow> string option" where
  "part_value part = at_index (js_split CHR '':'' part) 1"

text \<open>A part whose key is one of the three that \<open>processOptionPart\<close> accepts.\<close>

definition recognized :: "string \<Rightarrow> bool" where
  "recognized part = (part_key part \<in> {Some ''tag'', Some ''rel'', Some ''dft''})"

text \<open>Two processed parts that do not set the same field to two different values.\<close>

definition compatible :: "option_part \<Rightarrow> option_part \<Rightarrow> bool" where
  "compatible a b =
     ((part_tag a = None \<or> part_tag b = None \<or> part_tag a = part_tag b)
      \<and> (part_name a = None \<or> part_name b = None \<or> part_name a = part_name b)
      \<and> (part_draft a = None \<or> part_draft b = None \<or> part_draft a = part_draft b))"

text \<open>The parts of a raw option of which no two set one field to different values.\<close>

definition agreeing :: "string list \<Rightarrow> bool" where
  "agreeing parts =
     (\<forall>p\<in>set parts. \<forall>q\<in>set parts.
        case processOptionPart p of
          Inl h \<Rightarrow> True
        | Inr a \<Rightarrow> (case processOptionPart q of Inl h \<Rightarrow> True | Inr b \<Rightarrow> compatible a b))"

text \<open>What a check run reports of each partition of the batch: nothing when every option
  of the partition is found, else one message with the options that are not.\<close>

definition tagReport :: "github \<Rightarrow> cli_option list \<Rightarrow> message list" where
  "tagReport gh options =
     (let notFound = notFoundTags (existingTags gh) (filter isTagOption options)
      in if notFound = [] then [] else [TagsNotFound notFound])"

definition releaseReport :: "github \<Rightarrow> cli_option list \<Rightarrow> message list" where
  "releaseReport gh options =
     (let notFound = notFoundReleases (existingReleases gh) (filter isReleaseOption options)
      in if notFound = [] then [] else [ReleasesNotFound notFound])"

text \<open>The events that resolve the tip of a branch, and the commit a create-ref call points
  its tag at.\<close>

fun isResolve :: "event \<Rightarrow> bool" where
  "isResolve (Call (GetBranch branch)) = True"
| "isResolve e = False"

fun createdAt :: "event \<Rightarrow> string option option" where
  "createdAt (Call (CreateRef ref sha)) = Some sha"
| "createdAt e = None"

text \<open>An action that, from any state, adds to the trace only events that satisfy \<open>P\<close>.\<close>

definition emits :: "(event \<Rightarrow> bool) \<Rightarrow> 'a io \<Rightarrow> bool" where
  "emits P m = (\<forall>s. \<exists>ev. trace (snd (m s)) = trace s @ ev \<and> list_all P ev)"

text \<open>
  An action that keeps to a plan: from any state, when it returns, it returns \<open>a\<close> and
  has added the whole plan to the trace; when it halts, it has added a beginning of the
  plan.
\<close>

definition follows :: "event list \<Rightarrow> 'a \<Rightarrow> 'a io \<Rightarrow> bool" where
  "follows plan a m =
     (\<forall>s. case m s of
            (Inr a', s') \<Rightarrow> a' = a \<and> trace s' = trace s @ plan
          | (Inl h, s') \<Rightarrow> (\<exists>ev. trace s' = trace s @ ev \<and> prefix ev plan))"

text \<open>
  Written from the words of the specification, to compare with what the script computes.
  The expected options of a check that have no counterpart on the platform: a tag option
  with no listed tag of its name, a release option with no listed release that has its
  tag name, its name and its draft flag.
\<close>

definition unmatchedTags :: "github \<Rightarrow> cli_option list \<Rightarrow> cli_option list" where
  "unmatchedTags gh options =
     filter (\<lambda>option. isTagOption option
        \<and> \<not> (\<exists>t\<in>set (existingTags gh). Some (tag_name t) = tag option)) options"

definition unmatchedReleases :: "github \<Rightarrow> cli_option list \<Rightarrow> cli_option list" where
  "unmatchedReleases gh options =
     filter (\<lambda>option. isReleaseOption option
        \<and> \<not> (\<exists>r\<in>set (existingReleases gh).
               Some (release_tag_name r) = tag option
               \<and> Some (release_name r) = name option
               \<and> release_draft r = draft option)) options"

text \<open>
  Written from the words of the specification as well: the value of the first part of a
  raw option that has the given key and a value, if there is one; and the draft flag, read
  from the first part with the key \<open>dft\<close> (true for the value \<open>true\<close> only), false when
  no part has that key.
\<close>

fun firstValue :: "string \<Rightarrow> string list \<Rightarrow> string option" where
  "firstValue key [] = None"
| "firstValue key (part # parts) =
     (if part_key part = Some key \<and> part_value part \<noteq> None then part_value part
      else firstValue key parts)"

fun firstDraft :: "string list \<Rightarrow> bool" where
  "firstDraft [] = False"
| "firstDraft (part # parts) =
     (if part_key part = Some ''dft'' then part_value part = Some ''true''
      else firstDraft parts)"

section \<open>Basic facts about sequencing\<close>

lemma await_return [simp]: "await (return a) f = f a"
  by (simp add: await_def return_def fun_eq_iff)

lemma await_assoc [simp]: "await (await m g) f = await m (\<lambda>a. await (g a) f)"
  by (auto simp: await_def fun_eq_iff split: prod.splits sum.splits)

lemma await_lift_Inr [simp]: "await (lift (Inr a)) f = f a"
  by (simp add: await_def lift_def fun_eq_iff)

lemma await_lift_Inl [simp]: "await (lift (Inl h)) f s = (Inl h, s)"
  by (simp add: await_def lift_def)

lemma await_delay [simp]:
  "await (delay n) f s = f () (s\<lparr>trace := trace s @ [Delay n]\<rparr>)"
  by (simp add: await_def delay_def)

lemma await_consoleLog [simp]:
  "await (consoleLog m) f s = f () (s\<lparr>printed := printed s @ [m]\<rparr>)"
  by (simp add: await_def consoleLog_def)

lemma await_octokit_ok:
  "\<not> rejects gh (trace s) c \<Longrightarrow>
   await (octokit gh c reply) f s = f reply (s\<lparr>trace := trace s @ [Call c]\<rparr>)"
  by (simp add: await_def octokit_def Let_def)

lemma await_octokit_rejected:
  "rejects gh (trace s) c \<Longrightarrow>
   await (octokit gh c reply) f s = (Inl (Unhandled c), s\<lparr>trace := trace s @ [Call c]\<rparr>)"
  by (simp add: await_def octokit_def Let_def)

lemma deleteReleases_ok:
  "neverRejects gh \<Longrightarrow>
   deleteReleases gh rs s =
     (Inr (), s\<lparr>trace := trace s @
        concat (map (\<lambda>r. [Call (DeleteRelease (release_id r)), Delay API_DELAY_MS]) rs)\<rparr>)"
proof (induction rs arbitrary: s)
  case Nil
  then show ?case by (simp add: return_def)
next
  case (Cons r rs)
  from Cons.prems have "\<not> rejects gh (trace s) (DeleteRelease (release_id r))"
    by (simp add: neverRejects_def)
  then show ?case
    by (simp add: await_octokit_ok Cons.IH [OF Cons.prems])
qed

lemma deleteTags_ok:
  "neverRejects gh \<Longrightarrow>
   deleteTags gh ts s =
     (Inr (), s\<lparr>trace := trace s @
        concat (map (\<lambda>t. [Call (DeleteRef (''tags/'' @ tag_name t)), Delay API_DELAY_MS]) ts)\<rparr>)"
proof (induction ts arbitrary: s)
  case Nil
  then show ?case by (simp add: return_def)
next
  case (Cons t ts)
  from Cons.prems have "\<not> rejects gh (trace s) (DeleteRef (''tags/'' @ tag_name t))"
    by (simp add: neverRejects_def)
  then show ?case
    by (simp add: await_octokit_ok Cons.IH [OF Cons.prems])
qed

lemma applyOptions_ok:
  "neverRejects gh \<Longrightarrow> \<forall>option\<in>set options. isTagOption option \<or> isReleaseOption option \<Longrightarrow>
   applyOptions gh sha options s =
     (Inr (), s\<lparr>trace := trace s @
        concat (map (\<lambda>option.
          [Call (if isReleaseOption option
                 then CreateRelease (tag option) (name option) (draft option)
                 else CreateRef (''refs/tags/'' @ interpolate (tag option)) sha),
           Delay API_DELAY_MS]) options)\<rparr>)"
proof (induction options arbitrary: s)
  case Nil
  then show ?case by (simp add: return_def)
next
  case (Cons option options)
  have ok: "\<And>c. \<not> rejects gh (trace s) c"
    using Cons.prems(1) by (simp add: neverRejects_def)
  have IH: "\<And>s. applyOptions gh sha options s =
     (Inr (), s\<lparr>trace := trace s @
        concat (map (\<lambda>option.
          [Call (if isReleaseOption option
                 then CreateRelease (tag option) (name option) (draft option)
                 else CreateRef (''refs/tags/'' @ interpolate (tag option)) sha),
           Delay API_DELAY_MS]) options)\<rparr>)"
    using Cons.IH Cons.prems by simp
  show ?case
  proof (cases "isReleaseOption option")
    case True
    then show ?thesis
      by (simp add: createRelease_def await_octokit_ok ok IH)
  next
    case False
    with Cons.prems(2) have "isTagOption option" by simp
    with False show ?thesis
      by (simp add: createTag_def await_octokit_ok ok IH)
  qed
qed

lemma loadExistingReleases_ok:
  "\<not> rejects gh (trace s) ListReleases \<Longrightarrow>
   loadExistingReleases gh s = (Inr (existingReleases gh), s\<lparr>trace := trace s @ [Call ListReleases]\<rparr>)"
  by (simp add: loadExistingReleases_def await_octokit_ok existingReleases_def return_def)

lemma loadExistingTags_ok:
  "\<not> rejects gh (trace s) ListTags \<Longrightarrow>
   loadExistingTags gh s = (Inr (existingTags gh), s\<lparr>trace := trace s @ [Call ListTags]\<rparr>)"
  by (simp add: loadExistingTags_def await_octokit_ok existingTags_def return_def)

lemma await_ok: "m s = (Inr a, s') \<Longrightarrow> await m f s = f a s'"
  by (simp add: await_def)

lemma await_halt: "m s = (Inl h, s') \<Longrightarrow> await m f s = (Inl h, s')"
  by (simp add: await_def)

section \<open>Create mode when every call succeeds\<close>

lemma runCreate_ok:
  assumes "neverRejects gh"
    and "\<forall>option\<in>set options. isTagOption option \<or> isReleaseOption option"
  shows "runCreate gh options s =
    (Inr (), s\<lparr>trace := trace s @ createSequence gh options\<rparr>)"
proof -
  have ok: "\<And>tr c. \<not> rejects gh tr c"
    using assms(1) by (simp add: neverRejects_def)
  have del_r: "\<And>s. deleteExistingReleases gh s =
      (Inr (), s\<lparr>trace := trace s @ [Call ListReleases, Delay API_DELAY_MS]
         @ concat (map (\<lambda>r. [Call (DeleteRelease (release_id r)), Delay API_DELAY_MS])
                     (existingReleases gh))\<rparr>)"
    by (simp add: deleteExistingReleases_def await_ok [OF loadExistingReleases_ok] ok
        deleteReleases_ok [OF assms(1)])
  have del_t: "\<And>s. deleteExistingTags gh s =
      (Inr (), s\<lparr>trace := trace s @ [Call ListTags, Delay API_DELAY_MS]
         @ concat (map (\<lambda>t. [Call (DeleteRef (''tags/'' @ tag_name t)), Delay API_DELAY_MS])
                     (existingTags gh))\<rparr>)"
    by (simp add: deleteExistingTags_def await_ok [OF loadExistingTags_ok] ok
        deleteTags_ok [OF assms(1)])
  show ?thesis
  proof (cases "list_ex isTagOption options")
    case True
    then show ?thesis
      by (simp add: runCreate_def await_ok [OF del_r] await_ok [OF del_t]
          await_octokit_ok ok applyOptions_ok [OF assms] createSequence_def)
  next
    case False
    with assms(2) have rel: "\<forall>option\<in>set options. isReleaseOption option"
      by (auto simp: list_ex_iff)
    have same: "map (\<lambda>option.
            [Call (if isReleaseOption option
                   then CreateRelease (tag option) (name option) (draft option)
                   else CreateRef (''refs/tags/'' @ interpolate (tag option)) None),
             Delay API_DELAY_MS]) options
        = map (\<lambda>option.
            [Call (if isReleaseOption option
                   then CreateRelease (tag option) (name option) (draft option)
                   else CreateRef (''refs/tags/'' @ interpolate (tag option))
                          (Some (getBranch_sha gh))),
             Delay API_DELAY_MS]) options"
      using rel by (intro map_cong) auto
    from False show ?thesis
      by (simp add: runCreate_def await_ok [OF del_r] await_ok [OF del_t]
          applyOptions_ok [OF assms] same createSequence_def)
  qed
qed

section \<open>The sequence of a create run\<close>

lemma follows_return [simp]: "follows [] a (return a)"
  by (simp add: follows_def return_def)

lemma follows_quit [simp]: "follows plan a (lift (Inl h))"
  by (simp add: follows_def lift_def)

lemma follows_delay [simp]: "follows [Delay n] () (delay n)"
  by (simp add: follows_def delay_def)

lemma follows_octokit [simp]: "follows [Call c] reply (octokit gh c reply)"
  by (simp add: follows_def octokit_def Let_def)

lemma follows_await:
  assumes "follows p a m" and "follows q b (f a)"
  shows "follows (p @ q) b (await m f)"
  unfolding follows_def
proof
  fix s
  obtain r s' where ms: "m s = (r, s')" by (cases "m s")
  show "case await m f s of
          (Inr a', s') \<Rightarrow> a' = b \<and> trace s' = trace s @ p @ q
        | (Inl h, s') \<Rightarrow> (\<exists>ev. trace s' = trace s @ ev \<and> prefix ev (p @ q))"
  proof (cases r)
    case (Inl h)
    with assms(1) ms obtain ev where "trace s' = trace s @ ev" "prefix ev p"
      by (fastforce simp: follows_def dest: spec [of _ s])
    with ms Inl show ?thesis
      by (auto simp: await_def intro: prefix_order.trans)
  next
    case (Inr a')
    with assms(1) ms have a: "a' = a" "trace s' = trace s @ p"
      by (auto simp: follows_def dest: spec [of _ s])
    obtain r2 s2 where fs: "f a s' = (r2, s2)" by (cases "f a s'")
    show ?thesis
    proof (cases r2)
      case (Inl h)
      with assms(2) fs obtain ev where "trace s2 = trace s' @ ev" "prefix ev q"
        by (fastforce simp: follows_def dest: spec [of _ s'])
      with ms Inr a fs Inl show ?thesis
        by (auto simp: await_def)
    next
      case b: (Inr b')
      with assms(2) fs have "b' = b" "trace s2 = trace s' @ q"
        by (auto simp: follows_def dest: spec [of _ s'])
      with ms Inr a fs b show ?thesis
        by (auto simp: await_def)
    qed
  qed
qed

lemma follows_call_delay:
  assumes "follows q b m"
  shows "follows (Call c # Delay n # q) b
     (await (octokit gh c reply) (\<lambda>_. await (delay n) (\<lambda>_. m)))"
proof -
  have "follows ([Call c] @ ([Delay n] @ q)) b
     (await (octokit gh c reply) (\<lambda>_. await (delay n) (\<lambda>_. m)))"
    by (rule follows_await [where a = reply], rule follows_octokit,
        rule follows_await [where a = "()"], rule follows_delay, rule assms)
  then show ?thesis by simp
qed

lemma follows_deleteReleases:
  "follows (concat (map (\<lambda>r. [Call (DeleteRelease (release_id r)), Delay API_DELAY_MS]) rs)) ()
     (deleteReleases gh rs)"
  by (induction rs) (simp_all add: follows_call_delay del: await_delay)

lemma follows_deleteTags:
  "follows (concat (map (\<lambda>t. [Call (DeleteRef (''tags/'' @ tag_name t)), Delay API_DELAY_MS]) ts)) ()
     (deleteTags gh ts)"
  by (induction ts) (simp_all add: follows_call_delay del: await_delay)

lemma follows_deleteExistingReleases:
  "follows ([Call ListReleases, Delay API_DELAY_MS]
      @ concat (map (\<lambda>r. [Call (DeleteRelease (release_id r)), Delay API_DELAY_MS])
                  (existingReleases gh))) ()
     (deleteExistingReleases gh)"
proof -
  have load: "follows ([Call ListReleases] @ []) (existingReleases gh) (loadExistingReleases gh)"
    unfolding loadExistingReleases_def existingReleases_def
    by (rule follows_await [where a = "listReleases_data gh"], rule follows_octokit,
        rule follows_return)
  have rest: "follows ([Delay API_DELAY_MS]
      @ concat (map (\<lambda>r. [Call (DeleteRelease (release_id r)), Delay API_DELAY_MS])
                  (existingReleases gh))) ()
     (await (delay API_DELAY_MS) (\<lambda>_. deleteReleases gh (existingReleases gh)))"
    by (rule follows_await [where a = "()"], rule follows_delay, rule follows_deleteReleases)
  have "follows (([Call ListReleases] @ []) @ ([Delay API_DELAY_MS]
      @ concat (map (\<lambda>r. [Call (DeleteRelease (release_id r)), Delay API_DELAY_MS])
                  (existingReleases gh)))) ()
     (deleteExistingReleases gh)"
    unfolding deleteExistingReleases_def
    by (rule follows_await [where a = "existingReleases gh"], rule load, rule rest)
  then show ?thesis by simp
qed

lemma follows_deleteExistingTags:
  "follows ([Call ListTags, Delay API_DELAY_MS]
      @ concat (map (\<lambda>t. [Call (DeleteRef (''tags/'' @ tag_name t)), Delay API_DELAY_MS])
                  (existingTags gh))) ()
     (deleteExistingTags gh)"
proof -
  have load: "follows ([Call ListTags] @ []) (existingTags gh) (loadExistingTags gh)"
    unfolding loadExistingTags_def existingTags_def
    by (rule follows_await [where a = "listTags_data gh"], rule follows_octokit,
        rule follows_return)
  have rest: "follows ([Delay API_DELAY_MS]
      @ concat (map (\<lambda>t. [Call (DeleteRef (''tags/'' @ tag_name t)), Delay API_DELAY_MS])
                  (existingTags gh))) ()
     (await (delay API_DELAY_MS) (\<lambda>_. deleteTags gh (existingTags gh)))"
    by (rule follows_await [where a = "()"], rule follows_delay, rule follows_deleteTags)
  have "follows (([Call ListTags] @ []) @ ([Delay API_DELAY_MS]
      @ concat (map (\<lambda>t. [Call (DeleteRef (''tags/'' @ tag_name t)), Delay API_DELAY_MS])
                  (existingTags gh)))) ()
     (deleteExistingTags gh)"
    unfolding deleteExistingTags_def
    by (rule follows_await [where a = "existingTags gh"], rule load, rule rest)
  then show ?thesis by simp
qed

lemma follows_applyOptions:
  assumes "tagCommitSha = sha \<or> \<not> list_ex isTagOption options"
  shows "follows (concat (map (\<lambda>option.
          [Call (if isReleaseOption option
                 then CreateRelease (tag option) (name option) (draft option)
                 else CreateRef (''refs/tags/'' @ interpolate (tag option)) sha),
           Delay API_DELAY_MS]) options)) ()
     (applyOptions gh tagCommitSha options)"
  using assms
proof (induction options)
  case Nil
  show ?case by simp
next
  case (Cons option options)
  from Cons.prems have "tagCommitSha = sha \<or> \<not> list_ex isTagOption options" by auto
  note tail = Cons.IH [OF this]
  show ?case
  proof (cases "isReleaseOption option")
    case True
    with follows_call_delay [OF tail] show ?thesis
      by (simp add: createRelease_def del: await_delay)
  next
    case rel: False
    show ?thesis
    proof (cases "isTagOption option")
      case True
      with Cons.prems have "tagCommitSha = sha" by auto
      with rel True follows_call_delay [OF tail] show ?thesis
        by (simp add: createTag_def del: await_delay)
    next
      case False
      have "applyOptions gh tagCommitSha (option # options) =
          lift (logAndQuit (UnexpectedOption option))"
        using rel False
        by (simp add: fun_eq_iff logAndQuit_def lift_def del: await_delay)
      then show ?thesis by (simp add: logAndQuit_def)
    qed
  qed
qed

lemma follows_runCreate: "follows (createSequence gh options) () (runCreate gh options)"
proof -
  let ?creates = "concat (map (\<lambda>option.
          [Call (if isReleaseOption option
                 then CreateRelease (tag option) (name option) (draft option)
                 else CreateRef (''refs/tags/'' @ interpolate (tag option))
                        (Some (getBranch_sha gh))),
           Delay API_DELAY_MS]) options)"
  let ?sha = "if list_ex isTagOption options then Some (getBranch_sha gh) else None"
  have resolve: "follows (if list_ex isTagOption options then [Call (GetBranch ''main'')] else [])
      ?sha
      (if list_ex isTagOption options
       then await (octokit gh (GetBranch ''main'') (getBranch_sha gh)) (\<lambda>sha. return (Some sha))
       else return None)"
  proof (cases "list_ex isTagOption options")
    case True
    have "follows ([Call (GetBranch ''main'')] @ []) (Some (getBranch_sha gh))
      (await (octokit gh (GetBranch ''main'') (getBranch_sha gh)) (\<lambda>sha. return (Some sha)))"
      by (rule follows_await [where a = "getBranch_sha gh"], rule follows_octokit,
          rule follows_return)
    with True show ?thesis by simp
  next
    case False
    then show ?thesis by simp
  qed
  have creates: "follows ?creates () (applyOptions gh ?sha options)"
    by (rule follows_applyOptions) simp
  have third: "follows ((if list_ex isTagOption options then [Call (GetBranch ''main'')] else [])
        @ ?creates) ()
      (await (if list_ex isTagOption options
              then await (octokit gh (GetBranch ''main'') (getBranch_sha gh))
                     (\<lambda>sha. return (Some sha))
              else return None)
         (\<lambda>tagCommitSha. applyOptions gh tagCommitSha options))"
    by (rule follows_await [where a = ?sha], rule resolve, rule creates)
  have second: "follows (([Call ListTags, Delay API_DELAY_MS]
      @ concat (map (\<lambda>t. [Call (DeleteRef (''tags/'' @ tag_name t)), Delay API_DELAY_MS])
                  (existingTags gh)))
      @ ((if list_ex isTagOption options then [Call (GetBranch ''main'')] else []) @ ?creates)) ()
      (await (deleteExistingTags gh) (\<lambda>_.
         await (if list_ex isTagOption options
              then await (octokit gh (GetBranch ''main'') (getBranch_sha gh))
                     (\<lambda>sha. return (Some sha))
              else return None)
         (\<lambda>tagCommitSha. applyOptions gh tagCommitSha options)))"
    by (rule follows_await [where a = "()"], rule follows_deleteExistingTags, rule third)
  have "follows (([Call ListReleases, Delay API_DELAY_MS]
      @ concat (map (\<lambda>r. [Call (DeleteRelease (release_id r)), Delay API_DELAY_MS])
                  (existingReleases gh)))
      @ (([Call ListTags, Delay API_DELAY_MS]
      @ concat (map (\<lambda>t. [Call (DeleteRef (''tags/'' @ tag_name t)), Delay API_DELAY_MS])
                  (existingTags gh)))
      @ ((if list_ex isTagOption options then [Call (GetBranch ''main'')] else []) @ ?creates))) ()
      (runCreate gh options)"
    unfolding runCreate_def Let_def
    by (rule follows_await [where a = "()"], rule follows_deleteExistingReleases, rule second)
  then show ?thesis by (simp add: createSequence_def)
qed

lemma example_two_tags:
  "runCreate example_repo
         [\<lparr>name = None, tag = Some ''a'', draft = False\<rparr>,
          \<lparr>name = None, tag = Some ''b'', draft = False\<rparr>] start =
      (Inr (),
       \<lparr>trace =
          [Call ListReleases, Delay 2500, Call (DeleteRelease 7), Delay 2500,
           Call ListTags, Delay 2500, Call (DeleteRef ''tags/v1''), Delay 2500,
           Call (GetBranch ''main''),
           Call (CreateRef ''refs/tags/a'' (Some ''f00'')), Delay 2500,
           Call (CreateRef ''refs/tags/b'' (Some ''f00'')), Delay 2500],
        printed = [], exitCode = 0\<rparr>)"
proof -
  have calm: "neverRejects example_repo"
    by (simp add: neverRejects_def example_repo_def)
  have valid: "\<forall>option\<in>set [\<lparr>name = None, tag = Some ''a'', draft = False\<rparr>,
          \<lparr>name = None, tag = Some ''b'', draft = False\<rparr>].
        isTagOption option \<or> isReleaseOption option"
    by (simp add: isTagOption_def isReleaseOption_def truthy_def)
  show ?thesis
    unfolding runCreate_ok [OF calm valid]
    by (simp add: isTagOption_def isReleaseOption_def truthy_def start_def createSequence_def
        existingReleases_def existingTags_def example_repo_def API_DELAY_MS_def
        interpolate_def)
qed

lemma example_create_run:
  "run example_repo [''node'', ''index.js'', ''create'', ''tag:v2''] start =
     (Inr (),
      \<lparr>trace =
         [Call ListReleases, Delay 2500, Call (DeleteRelease 7), Delay 2500,
          Call ListTags, Delay 2500, Call (DeleteRef ''tags/v1''), Delay 2500,
          Call (GetBranch ''main''),
          Call (CreateRef ''refs/tags/v2'' (Some ''f00'')), Delay 2500],
       printed = [], exitCode = 0\<rparr>)"
proof -
  have args: "processArguments [''node'', ''index.js'', ''create'', ''tag:v2''] =
      Inr (Some ''create'', [\<lparr>name = None, tag = Some ''v2'', draft = False\<rparr>])"
    by code_simp
  have calm: "neverRejects example_repo"
    by (simp add: neverRejects_def example_repo_def)
  have valid: "\<forall>option\<in>set [\<lparr>name = None, tag = Some ''v2'', draft = False\<rparr>].
        isTagOption option \<or> isReleaseOption option"
    by (simp add: isTagOption_def isReleaseOption_def truthy_def)
  have "run example_repo [''node'', ''index.js'', ''create'', ''tag:v2''] start =
      runCreate example_repo [\<lparr>name = None, tag = Some ''v2'', draft = False\<rparr>] start"
    by (simp add: run_def args)
  also have "\<dots> = (Inr (),
      \<lparr>trace =
         [Call ListReleases, Delay 2500, Call (DeleteRelease 7), Delay 2500,
          Call ListTags, Delay 2500, Call (DeleteRef ''tags/v1''), Delay 2500,
          Call (GetBranch ''main''),
          Call (CreateRef ''refs/tags/v2'' (Some ''f00'')), Delay 2500],
       printed = [], exitCode = 0\<rparr>)"
    unfolding runCreate_ok [OF calm valid]
    by (simp add: isTagOption_def isReleaseOption_def truthy_def start_def createSequence_def
        existingReleases_def existingTags_def example_repo_def API_DELAY_MS_def
        interpolate_def)
  finally show ?thesis .
qed

text \<open>
  Claim C1. In every create run the events issued are a beginning of the sequence laid
  down for the repository and the batch: the listing of the releases and one delete call
  for each listed release, in listing order; then the listing of the tags and one delete
  call for each listed tag, in listing order; then the resolution of the branch tip when
  the batch has a tag option; then one create call for each option, in input order; with
  the pause after each delete call and each create call. A run that reaches its end has
  issued the whole sequence, and a run on a validated batch in which every call succeeds
  reaches its end and changes nothing else in the state of the process.
\<close>

theorem create_call_sequence:
  "(\<exists>ev. trace (snd (runCreate gh options s)) = trace s @ ev
         \<and> prefix ev (createSequence gh options))
   \<and> (fst (runCreate gh options s) = Inr () \<longrightarrow>
        trace (snd (runCreate gh options s)) = trace s @ createSequence gh options)
   \<and> (neverRejects gh \<and> (\<forall>option\<in>set options. isTagOption option \<or> isReleaseOption option) \<longrightarrow>
        runCreate gh options s = (Inr (), s\<lparr>trace := trace s @ createSequence gh options\<rparr>))"
proof (intro conjI impI)
  obtain r s' where run: "runCreate gh options s = (r, s')"
    by (cases "runCreate gh options s")
  from follows_runCreate [of gh options] run
  have cases: "case r of
      Inr a' \<Rightarrow> trace s' = trace s @ createSequence gh options
    | Inl h \<Rightarrow> (\<exists>ev. trace s' = trace s @ ev \<and> prefix ev (createSequence gh options))"
    by (auto simp: follows_def dest!: spec [of _ s] split: sum.splits)
  with run show "\<exists>ev. trace (snd (runCreate gh options s)) = trace s @ ev
         \<and> prefix ev (createSequence gh options)"
    by (cases r) auto
  show "trace (snd (runCreate gh options s)) = trace s @ createSequence gh options"
    if "fst (runCreate gh options s) = Inr ()"
    using that run cases by auto
next
  assume "neverRejects gh \<and> (\<forall>option\<in>set options. isTagOption option \<or> isReleaseOption option)"
  then show "runCreate gh options s = (Inr (), s\<lparr>trace := trace s @ createSequence gh options\<rparr>)"
    by (simp add: runCreate_ok)
qed

theorem create_call_sequence_witness:
  "neverRejects example_repo
   \<and> isReleaseOption \<lparr>name = Some ''Beta'', tag = Some ''v1.2.0'', draft = True\<rparr>
   \<and> isTagOption \<lparr>name = None, tag = Some ''v1.2.0-alpha'', draft = False\<rparr>
   \<and> createSequence example_repo
         [\<lparr>name = Some ''Beta'', tag = Some ''v1.2.0'', draft = True\<rparr>,
          \<lparr>name = None, tag = Some ''v1.2.0-alpha'', draft = False\<rparr>] =
       [Call ListReleases, Delay 2500, Call (DeleteRelease 7), Delay 2500,
        Call ListTags, Delay 2500, Call (DeleteRef ''tags/v1''), Delay 2500,
        Call (GetBranch ''main''),
        Call (CreateRelease (Some ''v1.2.0'') (Some ''Beta'') True), Delay 2500,
        Call (CreateRef ''refs/tags/v1.2.0-alpha'' (Some ''f00'')), Delay 2500]
   \<and> runCreate example_repo
         [\<lparr>name = Some ''Beta'', tag = Some ''v1.2.0'', draft = True\<rparr>,
          \<lparr>name = None, tag = Some ''v1.2.0-alpha'', draft = False\<rparr>] start =
       (Inr (),
        \<lparr>trace =
           [Call ListReleases, Delay 2500, Call (DeleteRelease 7), Delay 2500,
            Call ListTags, Delay 2500, Call (DeleteRef ''tags/v1''), Delay 2500,
            Call (GetBranch ''main''),
            Call (CreateRelease (Some ''v1.2.0'') (Some ''Beta'') True), Delay 2500,
            Call (CreateRef ''refs/tags/v1.2.0-alpha'' (Some ''f00'')), Delay 2500],
         printed = [], exitCode = 0\<rparr>)"
proof -
  have calm: "neverRejects example_repo"
    by (simp add: neverRejects_def example_repo_def)
  have valid: "\<forall>option\<in>set [\<lparr>name = Some ''Beta'', tag = Some ''v1.2.0'', draft = True\<rparr>,
          \<lparr>name = None, tag = Some ''v1.2.0-alpha'', draft = False\<rparr>].
        isTagOption option \<or> isReleaseOption option"
    by (simp add: isTagOption_def isReleaseOption_def truthy_def)
  show ?thesis
    using create_call_sequence [of example_repo
        "[\<lparr>name = Some ''Beta'', tag = Some ''v1.2.0'', draft = True\<rparr>,
          \<lparr>name = None, tag = Some ''v1.2.0-alpha'', draft = False\<rparr>]" start] calm valid
    by (simp add: isTagOption_def isReleaseOption_def truthy_def start_def createSequence_def
        existingReleases_def existingTags_def example_repo_def API_DELAY_MS_def
        interpolate_def)
qed

section \<open>Argument processing\<close>

lemma at_index_numeral [simp]:
  "at_index (x # xs) (numeral k) = at_index xs (pred_numeral k)"
  by (simp add: numeral_eq_Suc)

lemma map_quit_Inr:
  "map_quit f xs = Inr ys \<Longrightarrow> list_all2 (\<lambda>x y. f x = Inr y) xs ys"
  by (induction xs arbitrary: ys) (auto split: sum.splits)

lemma map_quit_Inl:
  "map_quit f xs = Inl h \<Longrightarrow> \<exists>x\<in>set xs. f x = Inl h"
  by (induction xs) (auto split: sum.splits)

lemma map_quit_member:
  assumes "map_quit f xs = Inr ys" and "x \<in> set xs"
  shows "\<exists>y\<in>set ys. f x = Inr y"
proof -
  from assms(1) have "list_all2 (\<lambda>x y. f x = Inr y) xs ys" by (rule map_quit_Inr)
  with assms(2) show ?thesis
    by (auto simp: list_all2_conv_all_nth in_set_conv_nth)
qed

lemma map_quit_set:
  "map_quit f xs = Inr ys \<Longrightarrow> set ys = {y. \<exists>x\<in>set xs. f x = Inr y}"
  by (induction xs arbitrary: ys) (auto split: sum.splits)

lemma map_quit_total:
  "\<forall>x\<in>set xs. \<exists>y. f x = Inr y \<Longrightarrow> \<exists>ys. map_quit f xs = Inr ys"
  by (induction xs) auto

lemma find_member: "find P xs = Some x \<Longrightarrow> x \<in> set xs \<and> P x"
  by (induction xs) (auto split: if_splits)

lemma truthy_iff: "truthy v \<longleftrightarrow> (\<exists>str. v = Some str \<and> str \<noteq> [])"
  by (cases v) (simp_all add: truthy_def)

lemma processOptionPart_Inl:
  "processOptionPart part = Inl h \<longleftrightarrow>
     \<not> recognized part \<and> h = ProcessExit 1 (UnexpectedOptionPart part)"
  by (auto simp: processOptionPart_def recognized_def part_key_def Let_def logAndQuit_def)

lemma processOptionPart_recognized:
  "recognized part \<Longrightarrow> \<exists>it. processOptionPart part = Inr it"
  by (auto simp: processOptionPart_def recognized_def part_key_def Let_def)

lemma processOptionPart_empty_value:
  assumes "processOptionPart part = Inr it" and "part_value part = Some []"
  shows "part_tag it \<in> {None, Some []}" and "part_name it \<in> {None, Some []}"
    and "part_draft it \<in> {None, Some False}"
  using assms
  by (auto simp: processOptionPart_def part_value_def Let_def logAndQuit_def split: if_splits)

lemma processRawOption_Inl:
  "processRawOption raw = Inl h \<Longrightarrow> \<exists>m. h = ProcessExit 1 m"
  by (auto simp: processRawOption_def processOptionPart_Inl split: sum.splits
      dest!: map_quit_Inl)

lemma processRawOption_unrecognized:
  assumes "part \<in> set (js_split CHR '','' raw)" and "\<not> recognized part"
  shows "\<exists>m. processRawOption raw = Inl (ProcessExit 1 m)"
proof (cases "map_quit processOptionPart (js_split CHR '','' raw)")
  case (Inl h)
  then have "processRawOption raw = Inl h" by (simp add: processRawOption_def)
  with processRawOption_Inl [of raw h] show ?thesis by auto
next
  case (Inr ps)
  from map_quit_member [OF Inr assms(1)] obtain y where "processOptionPart part = Inr y"
    by auto
  with assms(2) show ?thesis
    by (auto simp: processOptionPart_def recognized_def part_key_def Let_def logAndQuit_def
        split: if_splits)
qed

lemma processArguments_Inl:
  "processArguments argv = Inl h \<Longrightarrow> \<exists>m. h = ProcessExit 1 m"
  by (auto simp: processArguments_def Let_def logAndQuit_def
      split: if_splits sum.splits option.splits dest!: map_quit_Inl processRawOption_Inl)

lemma processArguments_Inr:
  assumes "processArguments argv = Inr (command, options)"
  shows "command = at_index argv 2" and "command \<in> set (map Some SUPPORTED_COMMANDS)"
    and "map_quit processRawOption (drop 3 argv) = Inr options"
    and "\<forall>option\<in>set options. isTagOption option \<or> isReleaseOption option"
  using assms
  by (auto simp: processArguments_def Let_def logAndQuit_def find_None_iff
      split: if_splits sum.splits option.splits)

lemma assemble_tag:
  "tag (assemble ps) = None \<or> (\<exists>it\<in>set ps. part_tag it = tag (assemble ps))"
  by (auto simp: assemble_def split: option.splits dest: find_member)

lemma assemble_name:
  "name (assemble ps) = None \<or> (\<exists>it\<in>set ps. part_name it = name (assemble ps))"
  by (auto simp: assemble_def split: option.splits dest: find_member)

lemma assemble_draft:
  "draft (assemble ps) \<Longrightarrow> \<exists>it\<in>set ps. part_draft it = Some True"
  by (auto simp: assemble_def split: option.splits dest: find_member)

lemma first_defined_eq:
  assumes "set xs = set ys"
    and "\<forall>a\<in>set xs. \<forall>b\<in>set xs. f a = None \<or> f b = None \<or> f a = f b"
  shows "(case find (\<lambda>it. f it \<noteq> None) xs of None \<Rightarrow> None | Some it \<Rightarrow> f it)
       = (case find (\<lambda>it. f it \<noteq> None) ys of None \<Rightarrow> None | Some it \<Rightarrow> f it)"
proof (cases "find (\<lambda>it. f it \<noteq> None) xs")
  case None
  then have "\<forall>it\<in>set xs. f it = None" by (auto simp: find_None_iff)
  with assms(1) have "find (\<lambda>it. f it \<noteq> None) ys = None" by (auto simp: find_None_iff)
  with None show ?thesis by simp
next
  case (Some a)
  then have a: "a \<in> set xs" "f a \<noteq> None" by (auto dest: find_member)
  with assms(1) have "\<not> (\<forall>it\<in>set ys. f it = None)" by auto
  then obtain b where b: "find (\<lambda>it. f it \<noteq> None) ys = Some b"
    by (cases "find (\<lambda>it. f it \<noteq> None) ys") (auto simp: find_None_iff)
  then have "b \<in> set ys" "f b \<noteq> None" by (auto dest: find_member)
  with a assms have "f a = f b" by (metis (full_types))
  with Some b show ?thesis by simp
qed

lemma assemble_order_independent:
  assumes "set ps = set qs" and "\<forall>a\<in>set ps. \<forall>b\<in>set ps. compatible a b"
  shows "assemble ps = assemble qs"
proof -
  have t: "\<forall>a\<in>set ps. \<forall>b\<in>set ps. part_tag a = None \<or> part_tag b = None \<or> part_tag a = part_tag b"
    using assms(2) by (simp add: compatible_def)
  have n: "\<forall>a\<in>set ps. \<forall>b\<in>set ps. part_name a = None \<or> part_name b = None \<or> part_name a = part_name b"
    using assms(2) by (simp add: compatible_def)
  have d: "\<forall>a\<in>set ps. \<forall>b\<in>set ps. part_draft a = None \<or> part_draft b = None \<or> part_draft a = part_draft b"
    using assms(2) by (simp add: compatible_def)
  show ?thesis
    unfolding assemble_def
    using first_defined_eq [OF assms(1) t] first_defined_eq [OF assms(1) n]
      first_defined_eq [OF assms(1) d]
    by simp
qed

lemma run_quit:
  "processArguments argv = Inl h \<Longrightarrow> run gh argv s = (Inl h, s)"
  by (simp add: run_def)

lemma run_no_options:
  "processArguments argv = Inr (command, []) \<Longrightarrow>
   run gh argv s = (Inl (ProcessExit 1 NoOptionsSupplied), s)"
  by (simp add: run_def logAndQuit_def)

lemma run_single_unclassifiable:
  assumes "command \<in> set SUPPORTED_COMMANDS" and "processRawOption raw = Inr option"
    and "\<not> isTagOption option" and "\<not> isReleaseOption option"
  shows "run gh [node, script, command, raw] s =
    (Inl (ProcessExit 1 (ExpectedTagOrRelease option)), s)"
  using assms by (simp add: run_def processArguments_def logAndQuit_def)

lemma run_rejects_locally:
  assumes "at_index argv 2 \<notin> set (map Some SUPPORTED_COMMANDS)
     \<or> (\<exists>raw\<in>set (drop 3 argv). \<exists>part\<in>set (js_split CHR '','' raw). \<not> recognized part)
     \<or> (\<exists>raw\<in>set (drop 3 argv). \<exists>option. processRawOption raw = Inr option
            \<and> \<not> isTagOption option \<and> \<not> isReleaseOption option)
     \<or> drop 3 argv = []"
  shows "\<exists>m. run gh argv s = (Inl (ProcessExit 1 m), s)"
proof (cases "processArguments argv")
  case (Inl h)
  with processArguments_Inl [OF Inl] run_quit [OF Inl, of gh s] show ?thesis
    by auto
next
  case (Inr res)
  obtain command options where res: "res = (command, options)" by (cases res)
  note facts = processArguments_Inr [OF Inr [unfolded res]]
  have "options = []"
    using assms
  proof (elim disjE bexE exE conjE)
    assume "at_index argv 2 \<notin> set (map Some SUPPORTED_COMMANDS)"
    with facts(1,2) show ?thesis by simp
  next
    fix raw part
    assume "raw \<in> set (drop 3 argv)" "part \<in> set (js_split CHR '','' raw)" "\<not> recognized part"
    from processRawOption_unrecognized [OF this(2,3)] map_quit_member [OF facts(3) this(1)]
    show ?thesis by auto
  next
    fix raw option
    assume "raw \<in> set (drop 3 argv)" "processRawOption raw = Inr option"
      "\<not> isTagOption option" "\<not> isReleaseOption option"
    with map_quit_member [OF facts(3) this(1)] facts(4) show ?thesis by auto
  next
    assume "drop 3 argv = []"
    with facts(3) show ?thesis by simp
  qed
  with Inr res run_no_options [of argv command gh s] show ?thesis
    by auto
qed

text \<open>
  Claim C8. An unsupported command, a part with an unrecognized key in any raw option, an
  assembled option that is neither a tag option nor a release option, and an empty list
  of options: each of them ends the run by \<open>process.exit\<close> with status 1, and the state
  of the process is still the one before the run, so no call has been issued.
\<close>

theorem fatal_errors_before_any_call:
  assumes "at_index argv 2 \<notin> set (map Some SUPPORTED_COMMANDS)
     \<or> (\<exists>raw\<in>set (drop 3 argv). \<exists>part\<in>set (js_split CHR '','' raw). \<not> recognized part)
     \<or> (\<exists>raw\<in>set (drop 3 argv). \<exists>option. processRawOption raw = Inr option
            \<and> \<not> isTagOption option \<and> \<not> isReleaseOption option)
     \<or> drop 3 argv = []"
  shows "\<exists>m. run gh argv s = (Inl (ProcessExit 1 m), s)
           \<and> exitStatus (run gh argv s) = Some 1"
proof -
  from run_rejects_locally [OF assms, of gh s]
  obtain m where "run gh argv s = (Inl (ProcessExit 1 m), s)" ..
  then show ?thesis by (auto simp: exitStatus_def)
qed

theorem fatal_errors_before_any_call_witness:
  "(\<exists>m. run example_repo [''node'', ''index.js'', ''publish'', ''tag:v1''] start
           = (Inl (ProcessExit 1 m), start)
        \<and> exitStatus (run example_repo [''node'', ''index.js'', ''publish'', ''tag:v1''] start)
           = Some 1)
   \<and> (\<exists>m. run example_repo [''node'', ''index.js'', ''create'', ''tag:v1,foo:bar''] start
           = (Inl (ProcessExit 1 m), start)
        \<and> exitStatus (run example_repo [''node'', ''index.js'', ''create'', ''tag:v1,foo:bar''] start)
           = Some 1)
   \<and> (\<exists>m. run example_repo [''node'', ''index.js'', ''create'', ''dft:true''] start
           = (Inl (ProcessExit 1 m), start)
        \<and> exitStatus (run example_repo [''node'', ''index.js'', ''create'', ''dft:true''] start)
           = Some 1)
   \<and> (\<exists>m. run example_repo [''node'', ''index.js'', ''check''] start
           = (Inl (ProcessExit 1 m), start)
        \<and> exitStatus (run example_repo [''node'', ''index.js'', ''check''] start) = Some 1)"
proof -
  have command: "at_index [''node'', ''index.js'', ''publish'', ''tag:v1''] 2
      \<notin> set (map Some SUPPORTED_COMMANDS)"
    by (simp add: SUPPORTED_COMMANDS_def)
  have "\<not> recognized ''foo:bar''"
    by (simp add: recognized_def part_key_def)
  then have grammar: "\<exists>raw\<in>set (drop 3 [''node'', ''index.js'', ''create'', ''tag:v1,foo:bar'']).
      \<exists>part\<in>set (js_split CHR '','' raw). \<not> recognized part"
    by simp
  have "processRawOption ''dft:true'' = Inr \<lparr>name = None, tag = None, draft = True\<rparr>"
    by code_simp
  then have unclassified: "\<exists>raw\<in>set (drop 3 [''node'', ''index.js'', ''create'', ''dft:true'']).
      \<exists>option. processRawOption raw = Inr option
        \<and> \<not> isTagOption option \<and> \<not> isReleaseOption option"
    by (simp add: isTagOption_def isReleaseOption_def truthy_def)
  have none: "drop 3 [''node'', ''index.js'', ''check''] = []"
    by simp
  show ?thesis
    using fatal_errors_before_any_call [of "[''node'', ''index.js'', ''publish'', ''tag:v1'']"
        example_repo start]
      fatal_errors_before_any_call [of "[''node'', ''index.js'', ''create'', ''tag:v1,foo:bar'']"
        example_repo start]
      fatal_errors_before_any_call [of "[''node'', ''index.js'', ''create'', ''dft:true'']"
        example_repo start]
      fatal_errors_before_any_call [of "[''node'', ''index.js'', ''check'']" example_repo start]
      command grammar unclassified none
    by blast
qed

text \<open>
  Claim C4, amended. Presence of a field means a non-empty string: an option that
  survives argument processing is either a tag option (tag a non-empty string, name
  undefined or empty, draft false) or a release option (name a non-empty string), never
  both and never neither; an assembled option that is neither is rejected by
  \<open>process.exit\<close> with status 1 before any call; and an option with a non-empty name
  and a tag is a release option, not a tag option.
\<close>

theorem classification_of_surviving_options:
  "(processArguments argv = Inr (command, options) \<longrightarrow>
      (\<forall>option\<in>set options.
         (isTagOption option \<and> \<not> isReleaseOption option)
         \<or> (isReleaseOption option \<and> \<not> isTagOption option)))
   \<and> (isTagOption option \<longleftrightarrow>
         (\<exists>t. tag option = Some t \<and> t \<noteq> [])
         \<and> (name option = None \<or> name option = Some [])
         \<and> \<not> draft option)
   \<and> (isReleaseOption option \<longleftrightarrow> (\<exists>n. name option = Some n \<and> n \<noteq> []))
   \<and> (raw \<in> set (drop 3 argv) \<and> processRawOption raw = Inr bad
        \<and> \<not> isTagOption bad \<and> \<not> isReleaseOption bad \<longrightarrow>
        (\<exists>m. run gh argv s = (Inl (ProcessExit 1 m), s)))
   \<and> ((\<exists>n. name option = Some n \<and> n \<noteq> []) \<and> tag option \<noteq> None \<longrightarrow>
        isReleaseOption option \<and> \<not> isTagOption option)"
proof (intro conjI impI)
  assume "processArguments argv = Inr (command, options)"
  from processArguments_Inr(4) [OF this]
  show "\<forall>option\<in>set options.
         (isTagOption option \<and> \<not> isReleaseOption option)
         \<or> (isReleaseOption option \<and> \<not> isTagOption option)"
    by (auto simp: isTagOption_def isReleaseOption_def)
next
  show "isTagOption option \<longleftrightarrow>
         (\<exists>t. tag option = Some t \<and> t \<noteq> [])
         \<and> (name option = None \<or> name option = Some [])
         \<and> \<not> draft option"
    by (cases "name option") (auto simp: isTagOption_def truthy_iff)
next
  show "isReleaseOption option \<longleftrightarrow> (\<exists>n. name option = Some n \<and> n \<noteq> [])"
    by (simp add: isReleaseOption_def truthy_iff)
next
  assume "raw \<in> set (drop 3 argv) \<and> processRawOption raw = Inr bad
        \<and> \<not> isTagOption bad \<and> \<not> isReleaseOption bad"
  then have "\<exists>raw\<in>set (drop 3 argv). \<exists>option. processRawOption raw = Inr option
            \<and> \<not> isTagOption option \<and> \<not> isReleaseOption option"
    by blast
  then show "\<exists>m. run gh argv s = (Inl (ProcessExit 1 m), s)"
    by (intro run_rejects_locally) simp
next
  assume a: "(\<exists>n. name option = Some n \<and> n \<noteq> []) \<and> tag option \<noteq> None"
  then show "isReleaseOption option" by (simp add: isReleaseOption_def truthy_iff)
  from a show "\<not> isTagOption option" by (simp add: isTagOption_def truthy_iff)
qed

theorem classification_of_surviving_options_witness:
  "processArguments [''node'', ''index.js'', ''create'', ''rel:Beta,tag:v1.2.0,dft:true'',
       ''tag:v1.2.0-alpha''] =
     Inr (Some ''create'',
          [\<lparr>name = Some ''Beta'', tag = Some ''v1.2.0'', draft = True\<rparr>,
           \<lparr>name = None, tag = Some ''v1.2.0-alpha'', draft = False\<rparr>])
   \<and> isReleaseOption \<lparr>name = Some ''Beta'', tag = Some ''v1.2.0'', draft = True\<rparr>
   \<and> \<not> isTagOption \<lparr>name = Some ''Beta'', tag = Some ''v1.2.0'', draft = True\<rparr>
   \<and> isTagOption \<lparr>name = None, tag = Some ''v1.2.0-alpha'', draft = False\<rparr>
   \<and> \<not> isReleaseOption \<lparr>name = None, tag = Some ''v1.2.0-alpha'', draft = False\<rparr>
   \<and> processRawOption ''dft:true'' = Inr \<lparr>name = None, tag = None, draft = True\<rparr>
   \<and> (\<exists>m. run example_repo [''node'', ''index.js'', ''check'', ''tag:v1'', ''dft:true''] start
           = (Inl (ProcessExit 1 m), start))"
proof -
  have survive: "processArguments [''node'', ''index.js'', ''create'',
       ''rel:Beta,tag:v1.2.0,dft:true'', ''tag:v1.2.0-alpha''] =
     Inr (Some ''create'',
          [\<lparr>name = Some ''Beta'', tag = Some ''v1.2.0'', draft = True\<rparr>,
           \<lparr>name = None, tag = Some ''v1.2.0-alpha'', draft = False\<rparr>])"
    by code_simp
  have bad: "processRawOption ''dft:true'' = Inr \<lparr>name = None, tag = None, draft = True\<rparr>"
    by code_simp
  have unclassified: "\<not> isTagOption \<lparr>name = None, tag = None, draft = True\<rparr>
      \<and> \<not> isReleaseOption \<lparr>name = None, tag = None, draft = True\<rparr>"
    by (simp add: isTagOption_def isReleaseOption_def truthy_def)
  show ?thesis
    using classification_of_surviving_options
        [of "[''node'', ''index.js'', ''create'', ''rel:Beta,tag:v1.2.0,dft:true'',
              ''tag:v1.2.0-alpha'']"
            "Some ''create''"
            "[\<lparr>name = Some ''Beta'', tag = Some ''v1.2.0'', draft = True\<rparr>,
              \<lparr>name = None, tag = Some ''v1.2.0-alpha'', draft = False\<rparr>]"
            "\<lparr>name = Some ''Beta'', tag = Some ''v1.2.0'', draft = True\<rparr>"]
      classification_of_surviving_options
        [of "[''node'', ''index.js'', ''check'', ''tag:v1'', ''dft:true'']" _ _ _
            "''dft:true''" "\<lparr>name = None, tag = None, draft = True\<rparr>" example_repo start]
      survive bad unclassified
    by (simp add: isTagOption_def isReleaseOption_def truthy_def)
qed

text \<open>
  Claim C4 as stated fails for a name that is set to the empty string: the raw option
  \<open>rel:,tag:v1\<close> is assembled with both name and tag set, survives argument processing,
  and is a tag option and not a release option.
\<close>

theorem empty_name_counts_as_absent:
  "processArguments [''node'', ''index.js'', ''create'', ''rel:,tag:v1''] =
     Inr (Some ''create'', [\<lparr>name = Some [], tag = Some ''v1'', draft = False\<rparr>])
   \<and> isTagOption \<lparr>name = Some [], tag = Some ''v1'', draft = False\<rparr>
   \<and> \<not> isReleaseOption \<lparr>name = Some [], tag = Some ''v1'', draft = False\<rparr>"
  by code_simp

text \<open>
  Claim C10. A part \<open>tag:\<close> or \<open>rel:\<close> sets its field to the empty string. A raw
  option all of whose parts have a recognized key and an empty value is assembled into an
  option whose tag and name are undefined or empty; it is neither a tag option nor a
  release option. As the only option of a supported command it ends the run with the
  message for an option of neither kind, and anywhere among the raw options it ends the
  run with status 1, before any call.
\<close>

theorem empty_values_are_absent:
  assumes "\<forall>part\<in>set (js_split CHR '','' raw). recognized part \<and> part_value part = Some []"
  shows "(\<forall>part\<in>set (js_split CHR '','' raw).
            (part_key part = Some ''tag'' \<longrightarrow> processOptionPart part =
               Inr \<lparr>part_tag = Some [], part_name = None, part_draft = None\<rparr>)
          \<and> (part_key part = Some ''rel'' \<longrightarrow> processOptionPart part =
               Inr \<lparr>part_tag = None, part_name = Some [], part_draft = None\<rparr>))
    \<and> (\<exists>option. processRawOption raw = Inr option
          \<and> tag option \<in> {None, Some []} \<and> name option \<in> {None, Some []}
          \<and> \<not> isTagOption option \<and> \<not> isReleaseOption option
          \<and> (command \<in> set SUPPORTED_COMMANDS \<longrightarrow>
                run gh [node, script, command, raw] s =
                  (Inl (ProcessExit 1 (ExpectedTagOrRelease option)), s)))
    \<and> (raw \<in> set (drop 3 argv) \<longrightarrow>
          (\<exists>m. run gh argv s = (Inl (ProcessExit 1 m), s)
              \<and> exitStatus (run gh argv s) = Some 1))"
proof (intro conjI)
  show "\<forall>part\<in>set (js_split CHR '','' raw).
            (part_key part = Some ''tag'' \<longrightarrow> processOptionPart part =
               Inr \<lparr>part_tag = Some [], part_name = None, part_draft = None\<rparr>)
          \<and> (part_key part = Some ''rel'' \<longrightarrow> processOptionPart part =
               Inr \<lparr>part_tag = None, part_name = Some [], part_draft = None\<rparr>)"
    using assms by (auto simp: processOptionPart_def part_key_def part_value_def Let_def)
next
  from assms have "\<forall>part\<in>set (js_split CHR '','' raw). \<exists>it. processOptionPart part = Inr it"
    by (auto intro: processOptionPart_recognized)
  then obtain ps where ps: "map_quit processOptionPart (js_split CHR '','' raw) = Inr ps"
    using map_quit_total by blast
  then have parsed: "processRawOption raw = Inr (assemble ps)"
    by (simp add: processRawOption_def)
  have parts: "part_tag it \<in> {None, Some []} \<and> part_name it \<in> {None, Some []}
      \<and> part_draft it \<in> {None, Some False}" if "it \<in> set ps" for it
  proof -
    from that map_quit_set [OF ps] obtain part
      where "part \<in> set (js_split CHR '','' raw)" "processOptionPart part = Inr it"
      by auto
    with assms processOptionPart_empty_value [of part it] show ?thesis by blast
  qed
  have t: "tag (assemble ps) \<in> {None, Some []}"
    using assemble_tag [of ps] parts by (metis insert_iff)
  have n: "name (assemble ps) \<in> {None, Some []}"
    using assemble_name [of ps] parts by (metis insert_iff)
  have d: "\<not> draft (assemble ps)"
    using assemble_draft [of ps] parts by fastforce
  have no_tag: "\<not> isTagOption (assemble ps)"
    using t by (auto simp: isTagOption_def truthy_def)
  have no_rel: "\<not> isReleaseOption (assemble ps)"
    using n by (auto simp: isReleaseOption_def truthy_def)
  have single: "command \<in> set SUPPORTED_COMMANDS \<longrightarrow>
      run gh [node, script, command, raw] s =
        (Inl (ProcessExit 1 (ExpectedTagOrRelease (assemble ps))), s)"
    using run_single_unclassifiable [OF _ parsed no_tag no_rel] by blast
  from parsed t n no_tag no_rel single
  show "\<exists>option. processRawOption raw = Inr option
          \<and> tag option \<in> {None, Some []} \<and> name option \<in> {None, Some []}
          \<and> \<not> isTagOption option \<and> \<not> isReleaseOption option
          \<and> (command \<in> set SUPPORTED_COMMANDS \<longrightarrow>
                run gh [node, script, command, raw] s =
                  (Inl (ProcessExit 1 (ExpectedTagOrRelease option)), s))"
    by blast
  show "raw \<in> set (drop 3 argv) \<longrightarrow>
          (\<exists>m. run gh argv s = (Inl (ProcessExit 1 m), s)
              \<and> exitStatus (run gh argv s) = Some 1)"
  proof
    assume "raw \<in> set (drop 3 argv)"
    with parsed no_tag no_rel
    have "\<exists>raw\<in>set (drop 3 argv). \<exists>option. processRawOption raw = Inr option
            \<and> \<not> isTagOption option \<and> \<not> isReleaseOption option"
      by blast
    then obtain m where "run gh argv s = (Inl (ProcessExit 1 m), s)"
      using run_rejects_locally [of argv gh s] by blast
    then show "\<exists>m. run gh argv s = (Inl (ProcessExit 1 m), s)
              \<and> exitStatus (run gh argv s) = Some 1"
      by (auto simp: exitStatus_def)
  qed
qed

theorem empty_values_are_absent_witness:
  "recognized ''tag:'' \<and> part_value ''tag:'' = Some []
   \<and> recognized ''rel:'' \<and> part_value ''rel:'' = Some []
   \<and> processOptionPart ''tag:'' = Inr \<lparr>part_tag = Some [], part_name = None, part_draft = None\<rparr>
   \<and> processOptionPart ''rel:'' = Inr \<lparr>part_tag = None, part_name = Some [], part_draft = None\<rparr>
   \<and> processRawOption ''tag:,rel:'' = Inr \<lparr>name = Some [], tag = Some [], draft = False\<rparr>
   \<and> run example_repo [''node'', ''index.js'', ''create'', ''tag:,rel:''] start =
       (Inl (ProcessExit 1
          (ExpectedTagOrRelease \<lparr>name = Some [], tag = Some [], draft = False\<rparr>)), start)
   \<and> (\<exists>m. run example_repo [''node'', ''index.js'', ''check'', ''tag:v1'', ''tag:,rel:''] start =
         (Inl (ProcessExit 1 m), start))"
proof -
  have hyp: "\<forall>part\<in>set (js_split CHR '','' ''tag:,rel:'').
      recognized part \<and> part_value part = Some []"
    by (simp add: recognized_def part_key_def part_value_def)
  have parsed: "processRawOption ''tag:,rel:'' = Inr \<lparr>name = Some [], tag = Some [], draft = False\<rparr>"
    by code_simp
  have cmd: "''create'' \<in> set SUPPORTED_COMMANDS"
    by (simp add: SUPPORTED_COMMANDS_def)
  show ?thesis
    using empty_values_are_absent [OF hyp, of "''create''" example_repo "''node''" "''index.js''"
        start "[''node'', ''index.js'', ''check'', ''tag:v1'', ''tag:,rel:'']"]
      parsed cmd
    by (simp add: recognized_def part_key_def part_value_def)
qed

lemma permuted_parts_alike:
  assumes "mset (js_split CHR '','' raw1) = mset (js_split CHR '','' raw2)"
    and "agreeing (js_split CHR '','' raw1)"
  shows "(isl (processRawOption raw1) \<longleftrightarrow> isl (processRawOption raw2))
     \<and> (\<forall>option. processRawOption raw1 = Inr option \<longleftrightarrow> processRawOption raw2 = Inr option)"
proof -
  let ?xs = "js_split CHR '','' raw1" and ?ys = "js_split CHR '','' raw2"
  from assms(1) have sets: "set ?xs = set ?ys" by (rule mset_eq_setD)
  show ?thesis
  proof (cases "map_quit processOptionPart ?xs")
    case (Inl h)
    then obtain part where "part \<in> set ?xs" "processOptionPart part = Inl h"
      by (auto dest: map_quit_Inl)
    with sets have "\<exists>h'. map_quit processOptionPart ?ys = Inl h'"
      by (cases "map_quit processOptionPart ?ys") (auto dest: map_quit_member)
    with Inl show ?thesis by (auto simp: processRawOption_def)
  next
    case (Inr ps)
    have "\<exists>qs. map_quit processOptionPart ?ys = Inr qs"
    proof (rule map_quit_total, rule ballI)
      fix part assume "part \<in> set ?ys"
      with sets map_quit_member [OF Inr, of part]
      show "\<exists>y. processOptionPart part = Inr y" by auto
    qed
    then obtain qs where qs: "map_quit processOptionPart ?ys = Inr qs" ..
    from map_quit_set [OF Inr] map_quit_set [OF qs] sets have same: "set ps = set qs"
      by simp
    have "\<forall>a\<in>set ps. \<forall>b\<in>set ps. compatible a b"
    proof (intro ballI)
      fix a b assume "a \<in> set ps" "b \<in> set ps"
      with map_quit_set [OF Inr] obtain p q
        where "p \<in> set ?xs" "processOptionPart p = Inr a"
          "q \<in> set ?xs" "processOptionPart q = Inr b"
        by auto
      with assms(2) show "compatible a b"
        by (fastforce simp: agreeing_def)
    qed
    with same have "assemble ps = assemble qs" by (rule assemble_order_independent)
    with Inr qs show ?thesis by (simp add: processRawOption_def)
  qed
qed

lemma assemble_first_occurrences:
  assumes "\<forall>part\<in>set parts. recognized part"
  shows "\<exists>ps. map_quit processOptionPart parts = Inr ps
     \<and> (case find (\<lambda>it. part_tag it \<noteq> None) ps of None \<Rightarrow> None | Some it \<Rightarrow> part_tag it)
         = firstValue ''tag'' parts
     \<and> (case find (\<lambda>it. part_name it \<noteq> None) ps of None \<Rightarrow> None | Some it \<Rightarrow> part_name it)
         = firstValue ''rel'' parts
     \<and> (case (case find (\<lambda>it. part_draft it \<noteq> None) ps of
                 None \<Rightarrow> None | Some it \<Rightarrow> part_draft it) of
           None \<Rightarrow> False | Some d \<Rightarrow> d)
         = firstDraft parts"
  using assms
proof (induction parts)
  case Nil
  show ?case by simp
next
  case (Cons part parts)
  then obtain ps where ps: "map_quit processOptionPart parts = Inr ps"
    and t: "(case find (\<lambda>it. part_tag it \<noteq> None) ps of None \<Rightarrow> None | Some it \<Rightarrow> part_tag it)
         = firstValue ''tag'' parts"
    and n: "(case find (\<lambda>it. part_name it \<noteq> None) ps of None \<Rightarrow> None | Some it \<Rightarrow> part_name it)
         = firstValue ''rel'' parts"
    and d: "(case (case find (\<lambda>it. part_draft it \<noteq> None) ps of
                 None \<Rightarrow> None | Some it \<Rightarrow> part_draft it) of
           None \<Rightarrow> False | Some d \<Rightarrow> d)
         = firstDraft parts"
    by auto
  from Cons.prems have "recognized part" by simp
  then consider (tag) "part_key part = Some ''tag''" | (rel) "part_key part = Some ''rel''"
    | (dft) "part_key part = Some ''dft''"
    by (auto simp: recognized_def)
  then show ?case
  proof cases
    case tag
    then have "processOptionPart part =
        Inr \<lparr>part_tag = part_value part, part_name = None, part_draft = None\<rparr>"
      by (simp add: processOptionPart_def part_key_def part_value_def Let_def)
    with ps t n d tag show ?thesis by (cases "part_value part") auto
  next
    case rel
    then have "processOptionPart part =
        Inr \<lparr>part_tag = None, part_name = part_value part, part_draft = None\<rparr>"
      by (simp add: processOptionPart_def part_key_def part_value_def Let_def)
    with ps t n d rel show ?thesis by (cases "part_value part") auto
  next
    case dft
    then have "processOptionPart part =
        Inr \<lparr>part_tag = None, part_name = None,
             part_draft = Some (part_value part = Some ''true'')\<rparr>"
      by (simp add: processOptionPart_def part_key_def part_value_def Let_def)
    with ps t n d dft show ?thesis by auto
  qed
qed

lemma processRawOption_built:
  assumes "\<forall>part\<in>set (js_split CHR '','' raw). recognized part"
  shows "processRawOption raw =
     Inr \<lparr>name = firstValue ''rel'' (js_split CHR '','' raw),
          tag = firstValue ''tag'' (js_split CHR '','' raw),
          draft = firstDraft (js_split CHR '','' raw)\<rparr>"
proof -
  from assemble_first_occurrences [OF assms] obtain ps
    where "map_quit processOptionPart (js_split CHR '','' raw) = Inr ps"
      and "(case find (\<lambda>it. part_tag it \<noteq> None) ps of None \<Rightarrow> None | Some it \<Rightarrow> part_tag it)
         = firstValue ''tag'' (js_split CHR '','' raw)"
      and "(case find (\<lambda>it. part_name it \<noteq> None) ps of None \<Rightarrow> None | Some it \<Rightarrow> part_name it)
         = firstValue ''rel'' (js_split CHR '','' raw)"
      and "(case (case find (\<lambda>it. part_draft it \<noteq> None) ps of
                 None \<Rightarrow> None | Some it \<Rightarrow> part_draft it) of
           None \<Rightarrow> False | Some d \<Rightarrow> d)
         = firstDraft (js_split CHR '','' raw)"
    by blast
  then show ?thesis
    by (simp add: processRawOption_def assemble_def)
qed

text \<open>
  Claim C6, amended. A raw option with a part whose key is not recognized is rejected. A
  raw option whose parts are all recognized is assembled from the first occurrences: its
  tag is the value of the first \<open>tag\<close> part that has a value, its name the value of the
  first \<open>rel\<close> part that has a value, its draft flag that of the first \<open>dft\<close> part,
  and false when there is none; so where a field is repeated the first occurrence wins.
  When no two parts set the same field to different values, every raw option with the
  same parts in another order is treated alike: both are rejected, or both are assembled
  into the same option.
\<close>

theorem parts_order_independent:
  "((\<exists>part\<in>set (js_split CHR '','' raw1). \<not> recognized part) \<longrightarrow>
       (\<exists>m. processRawOption raw1 = Inl (ProcessExit 1 m)))
   \<and> ((\<forall>part\<in>set (js_split CHR '','' raw1). recognized part) \<longrightarrow>
       processRawOption raw1 =
         Inr \<lparr>name = firstValue ''rel'' (js_split CHR '','' raw1),
              tag = firstValue ''tag'' (js_split CHR '','' raw1),
              draft = firstDraft (js_split CHR '','' raw1)\<rparr>)
   \<and> (mset (js_split CHR '','' raw1) = mset (js_split CHR '','' raw2)
        \<and> agreeing (js_split CHR '','' raw1) \<longrightarrow>
       (isl (processRawOption raw1) \<longleftrightarrow> isl (processRawOption raw2))
       \<and> (\<forall>option. processRawOption raw1 = Inr option \<longleftrightarrow> processRawOption raw2 = Inr option))"
proof (intro conjI impI)
  assume "\<exists>part\<in>set (js_split CHR '','' raw1). \<not> recognized part"
  then show "\<exists>m. processRawOption raw1 = Inl (ProcessExit 1 m)"
    by (auto dest: processRawOption_unrecognized)
next
  assume "\<forall>part\<in>set (js_split CHR '','' raw1). recognized part"
  then show "processRawOption raw1 =
         Inr \<lparr>name = firstValue ''rel'' (js_split CHR '','' raw1),
              tag = firstValue ''tag'' (js_split CHR '','' raw1),
              draft = firstDraft (js_split CHR '','' raw1)\<rparr>"
    by (rule processRawOption_built)
next
  assume a: "mset (js_split CHR '','' raw1) = mset (js_split CHR '','' raw2)
        \<and> agreeing (js_split CHR '','' raw1)"
  then have both: "(isl (processRawOption raw1) \<longleftrightarrow> isl (processRawOption raw2))
     \<and> (\<forall>option. processRawOption raw1 = Inr option \<longleftrightarrow> processRawOption raw2 = Inr option)"
    by (intro permuted_parts_alike) simp_all
  from both show "isl (processRawOption raw1) \<longleftrightarrow> isl (processRawOption raw2)" by blast
  from both show "\<forall>option. processRawOption raw1 = Inr option \<longleftrightarrow> processRawOption raw2 = Inr option"
    by blast
qed

theorem parts_order_independent_witness:
  "mset (js_split CHR '','' ''rel:Beta,tag:v1,dft:true'')
     = mset (js_split CHR '','' ''dft:true,tag:v1,rel:Beta'')
   \<and> agreeing (js_split CHR '','' ''rel:Beta,tag:v1,dft:true'')
   \<and> processRawOption ''rel:Beta,tag:v1,dft:true''
       = Inr \<lparr>name = Some ''Beta'', tag = Some ''v1'', draft = True\<rparr>
   \<and> processRawOption ''dft:true,tag:v1,rel:Beta''
       = Inr \<lparr>name = Some ''Beta'', tag = Some ''v1'', draft = True\<rparr>
   \<and> processRawOption ''tag,tag:a,tag:b,dft:no,dft:true''
       = Inr \<lparr>name = None, tag = Some ''a'', draft = False\<rparr>
   \<and> (\<exists>m. processRawOption ''tag:v1,foo:bar'' = Inl (ProcessExit 1 m))"
proof -
  have perm: "mset (js_split CHR '','' ''rel:Beta,tag:v1,dft:true'')
      = mset (js_split CHR '','' ''dft:true,tag:v1,rel:Beta'')"
    by simp
  have agree: "agreeing (js_split CHR '','' ''rel:Beta,tag:v1,dft:true'')"
    by (simp add: agreeing_def processOptionPart_def compatible_def Let_def)
  have known: "\<forall>part\<in>set (js_split CHR '','' ''rel:Beta,tag:v1,dft:true''). recognized part"
    "\<forall>part\<in>set (js_split CHR '','' ''tag,tag:a,tag:b,dft:no,dft:true''). recognized part"
    by (simp_all add: recognized_def part_key_def)
  have unknown: "\<exists>part\<in>set (js_split CHR '','' ''tag:v1,foo:bar''). \<not> recognized part"
    by (simp add: recognized_def part_key_def)
  have first: "processRawOption ''rel:Beta,tag:v1,dft:true''
       = Inr \<lparr>name = Some ''Beta'', tag = Some ''v1'', draft = True\<rparr>"
    using parts_order_independent [of "''rel:Beta,tag:v1,dft:true''"] known(1)
    by (simp add: part_key_def part_value_def)
  have repeated: "processRawOption ''tag,tag:a,tag:b,dft:no,dft:true''
       = Inr \<lparr>name = None, tag = Some ''a'', draft = False\<rparr>"
    using parts_order_independent [of "''tag,tag:a,tag:b,dft:no,dft:true''"] known(2)
    by (simp add: part_key_def part_value_def)
  have second: "processRawOption ''dft:true,tag:v1,rel:Beta''
       = Inr \<lparr>name = Some ''Beta'', tag = Some ''v1'', draft = True\<rparr>"
    using parts_order_independent [of "''rel:Beta,tag:v1,dft:true''" "''dft:true,tag:v1,rel:Beta''"]
      perm agree first
    by metis
  have rejected: "\<exists>m. processRawOption ''tag:v1,foo:bar'' = Inl (ProcessExit 1 m)"
    using parts_order_independent [of "''tag:v1,foo:bar''"] unknown by blast
  from perm agree first second repeated rejected show ?thesis by simp
qed

text \<open>
  Claim C6 as stated fails when a field is repeated: \<open>tag:a,tag:b\<close> and \<open>tag:b,tag:a\<close>
  have the same parts, and the first is assembled with tag \<open>a\<close>, the second with tag
  \<open>b\<close>.
\<close>

theorem repeated_field_depends_on_order:
  "mset (js_split CHR '','' ''tag:a,tag:b'') = mset (js_split CHR '','' ''tag:b,tag:a'')
   \<and> processRawOption ''tag:a,tag:b'' = Inr \<lparr>name = None, tag = Some ''a'', draft = False\<rparr>
   \<and> processRawOption ''tag:b,tag:a'' = Inr \<lparr>name = None, tag = Some ''b'', draft = False\<rparr>"
proof (intro conjI)
  show "mset (js_split CHR '','' ''tag:a,tag:b'') = mset (js_split CHR '','' ''tag:b,tag:a'')"
    by (simp add: add.commute)
  show "processRawOption ''tag:a,tag:b'' = Inr \<lparr>name = None, tag = Some ''a'', draft = False\<rparr>"
    by code_simp
  show "processRawOption ''tag:b,tag:a'' = Inr \<lparr>name = None, tag = Some ''b'', draft = False\<rparr>"
    by code_simp
qed

section \<open>Check mode\<close>

lemma loadExistingTags_rejected:
  "rejects gh (trace s) ListTags \<Longrightarrow>
   loadExistingTags gh s = (Inl (Unhandled ListTags), s\<lparr>trace := trace s @ [Call ListTags]\<rparr>)"
  by (simp add: loadExistingTags_def await_octokit_rejected)

lemma loadExistingReleases_rejected:
  "rejects gh (trace s) ListReleases \<Longrightarrow>
   loadExistingReleases gh s =
     (Inl (Unhandled ListReleases), s\<lparr>trace := trace s @ [Call ListReleases]\<rparr>)"
  by (simp add: loadExistingReleases_def await_octokit_rejected)

lemma checkTags_ok:
  "\<not> rejects gh (trace s) ListTags \<Longrightarrow>
   checkTags gh options s =
     (Inr (if notFoundTags (existingTags gh) options = [] then None
           else Some (TagsNotFound (notFoundTags (existingTags gh) options))),
      s\<lparr>trace := trace s @ [Call ListTags]\<rparr>)"
  by (simp add: checkTags_def await_ok [OF loadExistingTags_ok] Let_def return_def)

lemma checkTags_rejected:
  "rejects gh (trace s) ListTags \<Longrightarrow>
   checkTags gh options s = (Inl (Unhandled ListTags), s\<lparr>trace := trace s @ [Call ListTags]\<rparr>)"
  by (simp add: checkTags_def await_halt [OF loadExistingTags_rejected])

lemma checkReleases_ok:
  "\<not> rejects gh (trace s) ListReleases \<Longrightarrow>
   checkReleases gh options s =
     (Inr (if notFoundReleases (existingReleases gh) options = [] then None
           else Some (ReleasesNotFound (notFoundReleases (existingReleases gh) options))),
      s\<lparr>trace := trace s @ [Call ListReleases]\<rparr>)"
  by (simp add: checkReleases_def await_ok [OF loadExistingReleases_ok] Let_def return_def)

lemma checkReleases_rejected:
  "rejects gh (trace s) ListReleases \<Longrightarrow>
   checkReleases gh options s =
     (Inl (Unhandled ListReleases), s\<lparr>trace := trace s @ [Call ListReleases]\<rparr>)"
  by (simp add: checkReleases_def await_halt [OF loadExistingReleases_rejected])

lemma runChecks_tags_rejected:
  assumes "rejects gh (trace s) ListTags"
  shows "runChecks gh options s =
    (Inl (Unhandled ListTags), s\<lparr>trace := trace s @ [Call ListTags]\<rparr>)"
proof -
  note step = checkTags_rejected [OF assms, of "filter isTagOption options"]
  show ?thesis
    by (simp add: runChecks_def array_truthy_def Let_def await_def step)
qed

lemma runChecks_releases_rejected:
  assumes "\<not> rejects gh (trace s) ListTags"
    and "rejects gh (trace s @ [Call ListTags]) ListReleases"
  shows "runChecks gh options s =
     (Inl (Unhandled ListReleases),
      s\<lparr>trace := trace s @ [Call ListTags, Call ListReleases],
        printed := printed s @ tagReport gh options\<rparr>)"
proof -
  note first = checkTags_ok [OF assms(1), of "filter isTagOption options"]
  have second: "checkReleases gh (filter isReleaseOption options) s' =
     (Inl (Unhandled ListReleases), s'\<lparr>trace := trace s' @ [Call ListReleases]\<rparr>)"
    if "trace s' = trace s @ [Call ListTags]" for s'
    using that assms(2) by (simp add: checkReleases_rejected)
  show ?thesis
    by (simp add: runChecks_def array_truthy_def Let_def await_def first second
        tagReport_def consoleLog_def return_def)
qed

lemma runChecks_ok:
  assumes "\<not> rejects gh (trace s) ListTags"
    and "\<not> rejects gh (trace s @ [Call ListTags]) ListReleases"
  shows "runChecks gh options s =
     (Inr (),
      s\<lparr>trace := trace s @ [Call ListTags, Call ListReleases],
        printed := printed s @ tagReport gh options @ releaseReport gh options,
        exitCode := (if tagReport gh options @ releaseReport gh options = [] then exitCode s
                     else 1)\<rparr>)"
proof -
  note first = checkTags_ok [OF assms(1), of "filter isTagOption options"]
  have second: "checkReleases gh (filter isReleaseOption options) s' =
     (Inr (if notFoundReleases (existingReleases gh) (filter isReleaseOption options) = []
           then None
           else Some (ReleasesNotFound
             (notFoundReleases (existingReleases gh) (filter isReleaseOption options)))),
      s'\<lparr>trace := trace s' @ [Call ListReleases]\<rparr>)"
    if "trace s' = trace s @ [Call ListTags]" for s'
    using that assms(2) by (simp add: checkReleases_ok)
  show ?thesis
    by (simp add: runChecks_def array_truthy_def Let_def await_def first second
        tagReport_def releaseReport_def consoleLog_def setExitCode_def return_def)
qed

lemma notFoundTags_iff:
  "notFoundTags existing options =
     filter (\<lambda>option. \<not> (\<exists>t\<in>set existing. Some (tag_name t) = tag option)) options"
  by (auto simp: notFoundTags_def find_None_iff intro: filter_cong)

lemma notFoundReleases_iff:
  "notFoundReleases existing options =
     filter (\<lambda>option. \<not> (\<exists>r\<in>set existing. Some (release_tag_name r) = tag option
        \<and> Some (release_name r) = name option \<and> release_draft r = draft option)) options"
  by (auto simp: notFoundReleases_def find_None_iff intro: filter_cong)

lemma tagReport_empty: "filter isTagOption options = [] \<Longrightarrow> tagReport gh options = []"
  by (simp add: tagReport_def notFoundTags_def)

lemma releaseReport_empty:
  "filter isReleaseOption options = [] \<Longrightarrow> releaseReport gh options = []"
  by (simp add: releaseReport_def notFoundReleases_def)

lemma tagReport_members: "m \<in> set (tagReport gh options) \<Longrightarrow> \<exists>l. m = TagsNotFound l"
  by (auto simp: tagReport_def Let_def split: if_splits)

lemma releaseReport_members:
  "m \<in> set (releaseReport gh options) \<Longrightarrow> \<exists>l. m = ReleasesNotFound l"
  by (auto simp: releaseReport_def Let_def split: if_splits)

text \<open>
  Claim C3. When the listing succeeds, \<open>checkTags\<close> reports exactly the expected options
  for which no listed tag has the option's tag as its name, and \<open>checkReleases\<close> reports
  exactly the expected options for which no listed release agrees with the option in tag
  name, name and draft flag at once. The commits of the listed tags play no part: changing
  them changes nothing.
\<close>

theorem check_matching:
  assumes "\<not> rejects gh (trace s) ListTags" and "\<not> rejects gh (trace s) ListReleases"
  shows "fst (checkTags gh options s) =
      Inr (let unmatched = filter (\<lambda>option.
                 \<not> (\<exists>t\<in>set (existingTags gh). Some (tag_name t) = tag option)) options
           in if unmatched = [] then None else Some (TagsNotFound unmatched))
    \<and> fst (checkReleases gh options s) =
      Inr (let unmatched = filter (\<lambda>option.
                 \<not> (\<exists>r\<in>set (existingReleases gh).
                       Some (release_tag_name r) = tag option
                       \<and> Some (release_name r) = name option
                       \<and> release_draft r = draft option)) options
           in if unmatched = [] then None else Some (ReleasesNotFound unmatched))
    \<and> notFoundTags (map (\<lambda>t. t\<lparr>tag_commit_sha := sha\<rparr>) (existingTags gh)) options
        = notFoundTags (existingTags gh) options"
proof (intro conjI)
  show "fst (checkTags gh options s) =
      Inr (let unmatched = filter (\<lambda>option.
                 \<not> (\<exists>t\<in>set (existingTags gh). Some (tag_name t) = tag option)) options
           in if unmatched = [] then None else Some (TagsNotFound unmatched))"
    by (simp add: checkTags_ok [OF assms(1)] notFoundTags_iff Let_def)
  show "fst (checkReleases gh options s) =
      Inr (let unmatched = filter (\<lambda>option.
                 \<not> (\<exists>r\<in>set (existingReleases gh).
                       Some (release_tag_name r) = tag option
                       \<and> Some (release_name r) = name option
                       \<and> release_draft r = draft option)) options
           in if unmatched = [] then None else Some (ReleasesNotFound unmatched))"
    by (simp add: checkReleases_ok [OF assms(2)] notFoundReleases_iff Let_def)
  show "notFoundTags (map (\<lambda>t. t\<lparr>tag_commit_sha := sha\<rparr>) (existingTags gh)) options
        = notFoundTags (existingTags gh) options"
    by (simp add: notFoundTags_iff)
qed

theorem check_matching_witness:
  "\<not> rejects example_repo (trace start) ListTags
   \<and> \<not> rejects example_repo (trace start) ListReleases
   \<and> fst (checkTags example_repo
        [\<lparr>name = None, tag = Some ''v1'', draft = False\<rparr>,
         \<lparr>name = None, tag = Some ''v2'', draft = False\<rparr>] start)
      = Inr (Some (TagsNotFound [\<lparr>name = None, tag = Some ''v2'', draft = False\<rparr>]))
   \<and> fst (checkReleases example_repo
        [\<lparr>name = Some ''R1'', tag = Some ''v1'', draft = True\<rparr>,
         \<lparr>name = Some ''R1'', tag = Some ''v1'', draft = False\<rparr>,
         \<lparr>name = Some ''R2'', tag = Some ''v1'', draft = True\<rparr>,
         \<lparr>name = Some ''R1'', tag = Some ''v2'', draft = True\<rparr>] start)
      = Inr (Some (ReleasesNotFound
         [\<lparr>name = Some ''R1'', tag = Some ''v1'', draft = False\<rparr>,
          \<lparr>name = Some ''R2'', tag = Some ''v1'', draft = True\<rparr>,
          \<lparr>name = Some ''R1'', tag = Some ''v2'', draft = True\<rparr>]))"
proof -
  have tags: "\<not> rejects example_repo (trace start) ListTags"
    by (simp add: example_repo_def)
  have releases: "\<not> rejects example_repo (trace start) ListReleases"
    by (simp add: example_repo_def)
  show ?thesis
    using check_matching [OF tags releases,
        of "[\<lparr>name = None, tag = Some ''v1'', draft = False\<rparr>,
             \<lparr>name = None, tag = Some ''v2'', draft = False\<rparr>]"]
      check_matching [OF tags releases,
        of "[\<lparr>name = Some ''R1'', tag = Some ''v1'', draft = True\<rparr>,
         \<lparr>name = Some ''R1'', tag = Some ''v1'', draft = False\<rparr>,
         \<lparr>name = Some ''R2'', tag = Some ''v1'', draft = True\<rparr>,
         \<lparr>name = Some ''R1'', tag = Some ''v2'', draft = True\<rparr>]"]
      tags releases
    by (simp add: existingTags_def existingReleases_def example_repo_def)
qed

lemma runChecks_summary:
  "(\<forall>e\<in>set (trace (snd (runChecks gh options start))).
       e = Call ListTags \<or> e = Call ListReleases)
   \<and> (\<forall>n m. fst (runChecks gh options start) \<noteq> Inl (ProcessExit n m))
   \<and> (neverRejects gh \<longrightarrow>
        runChecks gh options start =
          (Inr (),
           \<lparr>trace = [Call ListTags, Call ListReleases],
            printed = tagReport gh options @ releaseReport gh options,
            exitCode = (if tagReport gh options @ releaseReport gh options = [] then 0 else 1)\<rparr>)
        \<and> exitStatus (runChecks gh options start) =
            Some (if tagReport gh options @ releaseReport gh options = [] then 0 else 1))"
proof -
  consider (tags) "rejects gh (trace start) ListTags"
    | (releases) "\<not> rejects gh (trace start) ListTags"
        "rejects gh (trace start @ [Call ListTags]) ListReleases"
    | (ok) "\<not> rejects gh (trace start) ListTags"
        "\<not> rejects gh (trace start @ [Call ListTags]) ListReleases"
    by blast
  then show ?thesis
  proof cases
    case tags
    then have "\<not> neverRejects gh" by (auto simp: neverRejects_def)
    with runChecks_tags_rejected [OF tags, of options] show ?thesis
      by (simp add: start_def)
  next
    case releases
    then have "\<not> neverRejects gh" by (auto simp: neverRejects_def)
    with runChecks_releases_rejected [OF releases, of options] show ?thesis
      by (simp add: start_def)
  next
    case ok
    from runChecks_ok [OF ok, of options] show ?thesis
      by (simp add: start_def exitStatus_def)
  qed
qed

lemma tagReport_unmatched:
  "tagReport gh options =
     (if unmatchedTags gh options = [] then [] else [TagsNotFound (unmatchedTags gh options)])"
  by (simp add: tagReport_def unmatchedTags_def notFoundTags_iff Let_def)

lemma releaseReport_unmatched:
  "releaseReport gh options =
     (if unmatchedReleases gh options = [] then []
      else [ReleasesNotFound (unmatchedReleases gh options)])"
  by (simp add: releaseReport_def unmatchedReleases_def notFoundReleases_iff Let_def)

text \<open>
  Claim C7. A check run issues no call but the two listings, and never ends by
  \<open>process.exit\<close>. When the listings succeed it runs to its end after both checks: it
  has printed, in one message each, every tag option of the batch for which no listed tag
  has its name and every release option of the batch for which no listed release has its
  tag name, name and draft flag, and nothing else; its exit code is 1 when some option is
  unmatched and 0 otherwise.
\<close>

theorem check_reports_everything:
  "(\<forall>e\<in>set (trace (snd (runChecks gh options start))).
       e = Call ListTags \<or> e = Call ListReleases)
   \<and> (\<forall>n m. fst (runChecks gh options start) \<noteq> Inl (ProcessExit n m))
   \<and> (neverRejects gh \<longrightarrow>
        runChecks gh options start =
          (Inr (),
           \<lparr>trace = [Call ListTags, Call ListReleases],
            printed =
              (if unmatchedTags gh options = [] then []
               else [TagsNotFound (unmatchedTags gh options)])
              @ (if unmatchedReleases gh options = [] then []
                 else [ReleasesNotFound (unmatchedReleases gh options)]),
            exitCode =
              (if unmatchedTags gh options = [] \<and> unmatchedReleases gh options = [] then 0
               else 1)\<rparr>)
        \<and> exitStatus (runChecks gh options start) =
            Some (if unmatchedTags gh options = [] \<and> unmatchedReleases gh options = [] then 0
                  else 1))"
  using runChecks_summary [of gh options]
  by (simp add: tagReport_unmatched releaseReport_unmatched exitStatus_def)

theorem check_reports_everything_witness:
  "neverRejects example_repo
   \<and> runChecks example_repo
        [\<lparr>name = None, tag = Some ''v2'', draft = False\<rparr>,
         \<lparr>name = Some ''R1'', tag = Some ''v1'', draft = False\<rparr>,
         \<lparr>name = None, tag = Some ''v1'', draft = False\<rparr>,
         \<lparr>name = Some ''R1'', tag = Some ''v1'', draft = True\<rparr>,
         \<lparr>name = Some ''R1'', tag = Some ''v2'', draft = True\<rparr>,
         \<lparr>name = None, tag = Some ''v3'', draft = False\<rparr>] start =
       (Inr (),
        \<lparr>trace = [Call ListTags, Call ListReleases],
         printed =
           [TagsNotFound [\<lparr>name = None, tag = Some ''v2'', draft = False\<rparr>,
                          \<lparr>name = None, tag = Some ''v3'', draft = False\<rparr>],
            ReleasesNotFound [\<lparr>name = Some ''R1'', tag = Some ''v1'', draft = False\<rparr>,
                              \<lparr>name = Some ''R1'', tag = Some ''v2'', draft = True\<rparr>]],
         exitCode = 1\<rparr>)
   \<and> exitStatus (runChecks example_repo
        [\<lparr>name = None, tag = Some ''v2'', draft = False\<rparr>,
         \<lparr>name = Some ''R1'', tag = Some ''v1'', draft = False\<rparr>,
         \<lparr>name = None, tag = Some ''v1'', draft = False\<rparr>,
         \<lparr>name = Some ''R1'', tag = Some ''v1'', draft = True\<rparr>,
         \<lparr>name = Some ''R1'', tag = Some ''v2'', draft = True\<rparr>,
         \<lparr>name = None, tag = Some ''v3'', draft = False\<rparr>] start) = Some 1
   \<and> runChecks example_repo
        [\<lparr>name = None, tag = Some ''v1'', draft = False\<rparr>,
         \<lparr>name = Some ''R1'', tag = Some ''v1'', draft = True\<rparr>] start =
       (Inr (), \<lparr>trace = [Call ListTags, Call ListReleases], printed = [], exitCode = 0\<rparr>)"
proof -
  have calm: "neverRejects example_repo"
    by (simp add: neverRejects_def example_repo_def)
  show ?thesis
    using check_reports_everything [of example_repo
        "[\<lparr>name = None, tag = Some ''v2'', draft = False\<rparr>,
         \<lparr>name = Some ''R1'', tag = Some ''v1'', draft = False\<rparr>,
         \<lparr>name = None, tag = Some ''v1'', draft = False\<rparr>,
         \<lparr>name = Some ''R1'', tag = Some ''v1'', draft = True\<rparr>,
         \<lparr>name = Some ''R1'', tag = Some ''v2'', draft = True\<rparr>,
         \<lparr>name = None, tag = Some ''v3'', draft = False\<rparr>]"]
      check_reports_everything [of example_repo
        "[\<lparr>name = None, tag = Some ''v1'', draft = False\<rparr>,
         \<lparr>name = Some ''R1'', tag = Some ''v1'', draft = True\<rparr>]"]
      calm
    by (simp add: unmatchedTags_def unmatchedReleases_def
        existingTags_def existingReleases_def example_repo_def isTagOption_def
        isReleaseOption_def truthy_def exitStatus_def)
qed

text \<open>
  Claim C9. A check run always issues the tag listing first, and when that succeeds the
  release listing next, whatever the batch holds. A check of no options at all finds
  nothing missing. A batch without tag options prints no tag report and one without
  release options prints no release report, and the exit code then depends on the other
  partition alone.
\<close>

theorem check_runs_on_empty_partitions:
  "(\<exists>rest. trace (snd (runChecks gh options start)) = Call ListTags # rest)
   \<and> (\<not> rejects gh [] ListTags \<longrightarrow>
        trace (snd (runChecks gh options start)) = [Call ListTags, Call ListReleases])
   \<and> (\<not> rejects gh (trace s) ListTags \<longrightarrow>
        checkTags gh [] s = (Inr None, s\<lparr>trace := trace s @ [Call ListTags]\<rparr>))
   \<and> (\<not> rejects gh (trace s) ListReleases \<longrightarrow>
        checkReleases gh [] s = (Inr None, s\<lparr>trace := trace s @ [Call ListReleases]\<rparr>))
   \<and> (filter isTagOption options = [] \<longrightarrow>
        (\<forall>l. TagsNotFound l \<notin> set (printed (snd (runChecks gh options start))))
        \<and> (neverRejects gh \<longrightarrow> exitCode (snd (runChecks gh options start)) =
             (if releaseReport gh options = [] then 0 else 1)))
   \<and> (filter isReleaseOption options = [] \<longrightarrow>
        (\<forall>l. ReleasesNotFound l \<notin> set (printed (snd (runChecks gh options start))))
        \<and> (neverRejects gh \<longrightarrow> exitCode (snd (runChecks gh options start)) =
             (if tagReport gh options = [] then 0 else 1)))"
proof -
  have empty_tags: "\<not> rejects gh (trace s) ListTags \<longrightarrow>
        checkTags gh [] s = (Inr None, s\<lparr>trace := trace s @ [Call ListTags]\<rparr>)"
    by (simp add: checkTags_ok notFoundTags_def)
  have empty_releases: "\<not> rejects gh (trace s) ListReleases \<longrightarrow>
        checkReleases gh [] s = (Inr None, s\<lparr>trace := trace s @ [Call ListReleases]\<rparr>)"
    by (simp add: checkReleases_ok notFoundReleases_def)
  consider (tags) "rejects gh (trace start) ListTags"
    | (releases) "\<not> rejects gh (trace start) ListTags"
        "rejects gh (trace start @ [Call ListTags]) ListReleases"
    | (ok) "\<not> rejects gh (trace start) ListTags"
        "\<not> rejects gh (trace start @ [Call ListTags]) ListReleases"
    by blast
  then have "(\<exists>rest. trace (snd (runChecks gh options start)) = Call ListTags # rest)
   \<and> (\<not> rejects gh [] ListTags \<longrightarrow>
        trace (snd (runChecks gh options start)) = [Call ListTags, Call ListReleases])
   \<and> (filter isTagOption options = [] \<longrightarrow>
        (\<forall>l. TagsNotFound l \<notin> set (printed (snd (runChecks gh options start))))
        \<and> (neverRejects gh \<longrightarrow> exitCode (snd (runChecks gh options start)) =
             (if releaseReport gh options = [] then 0 else 1)))
   \<and> (filter isReleaseOption options = [] \<longrightarrow>
        (\<forall>l. ReleasesNotFound l \<notin> set (printed (snd (runChecks gh options start))))
        \<and> (neverRejects gh \<longrightarrow> exitCode (snd (runChecks gh options start)) =
             (if tagReport gh options = [] then 0 else 1)))"
  proof cases
    case tags
    then have "\<not> neverRejects gh" by (auto simp: neverRejects_def)
    with tags runChecks_tags_rejected [OF tags, of options] show ?thesis
      by (simp add: start_def)
  next
    case releases
    then have "\<not> neverRejects gh" by (auto simp: neverRejects_def)
    with runChecks_releases_rejected [OF releases, of options] show ?thesis
      by (auto simp: start_def tagReport_empty dest: tagReport_members)
  next
    case ok
    from runChecks_ok [OF ok, of options] show ?thesis
      by (auto simp: start_def tagReport_empty releaseReport_empty
          dest: tagReport_members releaseReport_members)
  qed
  with empty_tags empty_releases show ?thesis by blast
qed

theorem check_runs_on_empty_partitions_witness:
  "\<not> rejects example_repo [] ListTags
   \<and> filter isTagOption [\<lparr>name = Some ''R1'', tag = Some ''v1'', draft = True\<rparr>] = []
   \<and> filter isReleaseOption [\<lparr>name = None, tag = Some ''v1'', draft = False\<rparr>] = []
   \<and> neverRejects example_repo
   \<and> runChecks example_repo [\<lparr>name = Some ''R1'', tag = Some ''v1'', draft = True\<rparr>] start
       = (Inr (), \<lparr>trace = [Call ListTags, Call ListReleases], printed = [], exitCode = 0\<rparr>)
   \<and> runChecks example_repo [\<lparr>name = None, tag = Some ''v1'', draft = False\<rparr>] start
       = (Inr (), \<lparr>trace = [Call ListTags, Call ListReleases], printed = [], exitCode = 0\<rparr>)
   \<and> checkTags example_repo [] start = (Inr None, \<lparr>trace = [Call ListTags], printed = [], exitCode = 0\<rparr>)
   \<and> checkReleases example_repo [] start
       = (Inr None, \<lparr>trace = [Call ListReleases], printed = [], exitCode = 0\<rparr>)"
proof -
  have calm: "neverRejects example_repo"
    by (simp add: neverRejects_def example_repo_def)
  have r1: "runChecks example_repo [\<lparr>name = Some ''R1'', tag = Some ''v1'', draft = True\<rparr>] start
       = (Inr (), \<lparr>trace = [Call ListTags, Call ListReleases], printed = [], exitCode = 0\<rparr>)"
    by code_simp
  have r2: "runChecks example_repo [\<lparr>name = None, tag = Some ''v1'', draft = False\<rparr>] start
       = (Inr (), \<lparr>trace = [Call ListTags, Call ListReleases], printed = [], exitCode = 0\<rparr>)"
    by code_simp
  have c1: "checkTags example_repo [] start
       = (Inr None, \<lparr>trace = [Call ListTags], printed = [], exitCode = 0\<rparr>)"
    by code_simp
  have c2: "checkReleases example_repo [] start
       = (Inr None, \<lparr>trace = [Call ListReleases], printed = [], exitCode = 0\<rparr>)"
    by code_simp
  have quiet: "\<not> rejects example_repo [] ListTags"
    by (simp add: example_repo_def)
  have parts: "filter isTagOption [\<lparr>name = Some ''R1'', tag = Some ''v1'', draft = True\<rparr>] = []"
    "filter isReleaseOption [\<lparr>name = None, tag = Some ''v1'', draft = False\<rparr>] = []"
    by (simp_all add: isTagOption_def isReleaseOption_def truthy_def)
  show ?thesis
    using check_runs_on_empty_partitions [of example_repo
        "[\<lparr>name = Some ''R1'', tag = Some ''v1'', draft = True\<rparr>]" start]
      calm r1 r2 c1 c2 quiet parts
    by simp
qed

section \<open>The anchor commit and the pacing of calls\<close>

lemma emitsD: "emits P m \<Longrightarrow> \<exists>ev. trace (snd (m s)) = trace s @ ev \<and> list_all P ev"
  by (simp add: emits_def)

lemma emits_mono: "emits P m \<Longrightarrow> (\<And>e. P e \<Longrightarrow> Q e) \<Longrightarrow> emits Q m"
  unfolding emits_def by (metis (mono_tags, lifting) list_all_iff)

lemma emits_return [simp]: "emits P (return a)"
  by (simp add: emits_def return_def)

lemma emits_lift [simp]: "emits P (lift r)"
  by (simp add: emits_def lift_def)

lemma emits_delay: "P (Delay n) \<Longrightarrow> emits P (delay n)"
  by (simp add: emits_def delay_def)

lemma emits_octokit: "P (Call c) \<Longrightarrow> emits P (octokit gh c reply)"
  by (simp add: emits_def octokit_def Let_def)

lemma emits_await:
  assumes "emits P m" and "\<And>a. emits P (f a)"
  shows "emits P (await m f)"
  unfolding emits_def
proof
  fix s
  obtain r s' where ms: "m s = (r, s')" by (cases "m s")
  from emitsD [OF assms(1), of s] ms obtain ev1
    where ev1: "trace s' = trace s @ ev1" "list_all P ev1" by auto
  show "\<exists>ev. trace (snd (await m f s)) = trace s @ ev \<and> list_all P ev"
  proof (cases r)
    case (Inl h)
    with ms ev1 show ?thesis by (auto simp: await_def)
  next
    case (Inr a)
    from emitsD [OF assms(2), of a s'] obtain ev2
      where "trace (snd (f a s')) = trace s' @ ev2" "list_all P ev2" by auto
    with ms ev1 Inr show ?thesis by (auto simp: await_def)
  qed
qed

lemma emits_deleteReleases:
  "emits (\<lambda>e. \<not> isResolve e \<and> createdAt e = None) (deleteReleases gh rs)"
proof (induction rs)
  case Nil
  show ?case by simp
next
  case (Cons r rs)
  show ?case
    unfolding deleteReleases.simps
    by (intro emits_await emits_octokit emits_delay Cons.IH) simp_all
qed

lemma emits_deleteTags:
  "emits (\<lambda>e. \<not> isResolve e \<and> createdAt e = None) (deleteTags gh ts)"
proof (induction ts)
  case Nil
  show ?case by simp
next
  case (Cons t ts)
  show ?case
    unfolding deleteTags.simps
    by (intro emits_await emits_octokit emits_delay Cons.IH) simp_all
qed

lemma emits_deleteExistingReleases:
  "emits (\<lambda>e. \<not> isResolve e \<and> createdAt e = None) (deleteExistingReleases gh)"
  unfolding deleteExistingReleases_def loadExistingReleases_def
  by (intro emits_await emits_octokit emits_delay emits_deleteReleases emits_return) simp_all

lemma emits_deleteExistingTags:
  "emits (\<lambda>e. \<not> isResolve e \<and> createdAt e = None) (deleteExistingTags gh)"
  unfolding deleteExistingTags_def loadExistingTags_def
  by (intro emits_await emits_octokit emits_delay emits_deleteTags emits_return) simp_all

lemma emits_applyOptions:
  "emits (\<lambda>e. \<not> isResolve e
        \<and> (createdAt e = None \<or> createdAt e = Some sha \<and> list_ex isTagOption options))
     (applyOptions gh sha options)"
proof (induction options)
  case Nil
  show ?case by simp
next
  case (Cons option options)
  have tail: "emits (\<lambda>e. \<not> isResolve e
        \<and> (createdAt e = None \<or> createdAt e = Some sha \<and> list_ex isTagOption (option # options)))
     (applyOptions gh sha options)"
    by (rule emits_mono [OF Cons.IH]) auto
  have head: "emits (\<lambda>e. \<not> isResolve e
        \<and> (createdAt e = None \<or> createdAt e = Some sha \<and> list_ex isTagOption (option # options)))
     (if isReleaseOption option then createRelease gh option
      else if isTagOption option then createTag gh option sha
      else lift (logAndQuit (UnexpectedOption option)))"
    by (auto simp: createRelease_def createTag_def intro!: emits_octokit)
  show ?case
    unfolding applyOptions.simps
    by (intro emits_await head emits_delay tail) simp
qed

lemma runCreate_trace:
  "\<exists>ev1 ev3 ev4.
      trace (snd (runCreate gh options s)) = trace s @ ev1 @ ev3 @ ev4
    \<and> list_all (\<lambda>e. \<not> isResolve e \<and> createdAt e = None) ev1
    \<and> (ev3 = [] \<or> ev3 = [Call (GetBranch ''main'')] \<and> list_ex isTagOption options)
    \<and> list_all (\<lambda>e. \<not> isResolve e
          \<and> (createdAt e = None
             \<or> createdAt e = Some (Some (getBranch_sha gh)) \<and> ev3 \<noteq> [])) ev4
    \<and> (fst (runCreate gh options s) = Inr () \<and> list_ex isTagOption options \<longrightarrow> ev3 \<noteq> [])"
proof -
  obtain r1 s1 where 1: "deleteExistingReleases gh s = (r1, s1)"
    by (cases "deleteExistingReleases gh s")
  from emitsD [OF emits_deleteExistingReleases, of gh s] 1 obtain eva
    where eva: "trace s1 = trace s @ eva" "list_all (\<lambda>e. \<not> isResolve e \<and> createdAt e = None) eva"
    by auto
  show ?thesis
  proof (cases r1)
    case (Inl h)
    with 1 have "runCreate gh options s = (Inl h, s1)"
      by (simp add: runCreate_def await_def)
    with eva show ?thesis
      by (intro exI [of _ eva] exI [of _ "[]"]) simp
  next
    case a: (Inr u1)
    obtain r2 s2 where 2: "deleteExistingTags gh s1 = (r2, s2)"
      by (cases "deleteExistingTags gh s1")
    from emitsD [OF emits_deleteExistingTags, of gh s1] 2 obtain evb
      where evb: "trace s2 = trace s1 @ evb"
        "list_all (\<lambda>e. \<not> isResolve e \<and> createdAt e = None) evb"
      by auto
    from eva evb have ev1: "trace s2 = trace s @ (eva @ evb)"
      "list_all (\<lambda>e. \<not> isResolve e \<and> createdAt e = None) (eva @ evb)"
      by simp_all
    show ?thesis
    proof (cases r2)
      case (Inl h)
      with 1 2 a have "runCreate gh options s = (Inl h, s2)"
        by (simp add: runCreate_def await_def)
      with ev1 show ?thesis
        by (intro exI [of _ "eva @ evb"] exI [of _ "[]"]) simp
    next
      case b: (Inr u2)
      show ?thesis
      proof (cases "list_ex isTagOption options")
        case False
        with 1 2 a b
        have run: "runCreate gh options s = applyOptions gh None options s2"
          by (simp add: runCreate_def await_def return_def)
        from emitsD [OF emits_applyOptions, of gh None options s2] False obtain ev4
          where "trace (snd (applyOptions gh None options s2)) = trace s2 @ ev4"
            "list_all (\<lambda>e. \<not> isResolve e \<and> createdAt e = None) ev4"
          by auto
        with run ev1 False show ?thesis
          by (intro exI [of _ "eva @ evb"] exI [of _ "[]"] exI [of _ ev4])
            (simp add: list_all_iff)
      next
        case True
        show ?thesis
        proof (cases "rejects gh (trace s2) (GetBranch ''main'')")
          case rej: True
          with 1 2 a b True
          have "runCreate gh options s =
              (Inl (Unhandled (GetBranch ''main'')),
               s2\<lparr>trace := trace s2 @ [Call (GetBranch ''main'')]\<rparr>)"
            by (simp add: runCreate_def await_def octokit_def Let_def)
          with ev1 True show ?thesis
            by (intro exI [of _ "eva @ evb"] exI [of _ "[Call (GetBranch ''main'')]"]
                exI [of _ "[]"]) simp
        next
          case ok: False
          let ?s3 = "s2\<lparr>trace := trace s2 @ [Call (GetBranch ''main'')]\<rparr>"
          from 1 2 a b True ok
          have run: "runCreate gh options s =
              applyOptions gh (Some (getBranch_sha gh)) options ?s3"
            by (simp add: runCreate_def await_def octokit_def Let_def return_def)
          from emitsD [OF emits_applyOptions, of gh "Some (getBranch_sha gh)" options ?s3]
          obtain ev4
            where "trace (snd (applyOptions gh (Some (getBranch_sha gh)) options ?s3))
                = trace ?s3 @ ev4"
              "list_all (\<lambda>e. \<not> isResolve e
                \<and> (createdAt e = None \<or> createdAt e = Some (Some (getBranch_sha gh))
                      \<and> list_ex isTagOption options)) ev4"
            by auto
          with run ev1 True show ?thesis
            by (intro exI [of _ "eva @ evb"] exI [of _ "[Call (GetBranch ''main'')]"]
                exI [of _ ev4]) (simp add: list_all_iff)
        qed
      qed
    qed
  qed
qed

lemma filter_none: "list_all (\<lambda>e. \<not> P e \<and> Q e) ev \<Longrightarrow> filter P ev = []"
  by (induction ev) auto

text \<open>
  Claim C2. In every create run, whatever the platform answers, the tip of the default
  branch is resolved at most once; it is not resolved at all when the batch has no tag
  option; it is resolved exactly once, on \<open>main\<close>, when the batch has a tag option and
  the run reaches its end; and every create-ref call of the run comes in a run with
  exactly one resolution and points its tag at the commit that this resolution returned.
\<close>

theorem anchor_commit_resolved_once:
  "length (filter isResolve (trace (snd (runCreate gh options start)))) \<le> 1
   \<and> (\<not> list_ex isTagOption options \<longrightarrow>
        filter isResolve (trace (snd (runCreate gh options start))) = [])
   \<and> (list_ex isTagOption options \<and> fst (runCreate gh options start) = Inr () \<longrightarrow>
        filter isResolve (trace (snd (runCreate gh options start))) = [Call (GetBranch ''main'')])
   \<and> (\<forall>ref sha. Call (CreateRef ref sha) \<in> set (trace (snd (runCreate gh options start))) \<longrightarrow>
        sha = Some (getBranch_sha gh)
        \<and> filter isResolve (trace (snd (runCreate gh options start)))
            = [Call (GetBranch ''main'')])"
proof -
  from runCreate_trace [of gh options start] obtain ev1 ev3 ev4
    where tr: "trace (snd (runCreate gh options start)) = ev1 @ ev3 @ ev4"
      and ev1: "list_all (\<lambda>e. \<not> isResolve e \<and> createdAt e = None) ev1"
      and ev3: "ev3 = [] \<or> ev3 = [Call (GetBranch ''main'')] \<and> list_ex isTagOption options"
      and ev4: "list_all (\<lambda>e. \<not> isResolve e
          \<and> (createdAt e = None
             \<or> createdAt e = Some (Some (getBranch_sha gh)) \<and> ev3 \<noteq> [])) ev4"
      and finished: "fst (runCreate gh options start) = Inr () \<and> list_ex isTagOption options
          \<longrightarrow> ev3 \<noteq> []"
    by (auto simp: start_def)
  have res: "filter isResolve (trace (snd (runCreate gh options start))) = ev3"
    using tr ev3 filter_none [OF ev1] filter_none [OF ev4] by auto
  have created: "sha = Some (getBranch_sha gh) \<and> ev3 \<noteq> []"
    if "Call (CreateRef ref sha) \<in> set (trace (snd (runCreate gh options start)))" for ref sha
  proof -
    from that tr consider "Call (CreateRef ref sha) \<in> set ev1"
      | "Call (CreateRef ref sha) \<in> set ev3" | "Call (CreateRef ref sha) \<in> set ev4"
      by auto
    then show ?thesis
    proof cases
      case 1
      with ev1 show ?thesis by (auto simp: list_all_iff)
    next
      case 2
      with ev3 show ?thesis by auto
    next
      case 3
      with ev4 show ?thesis by (auto simp: list_all_iff)
    qed
  qed
  show ?thesis
    unfolding res using ev3 finished created by auto
qed

theorem anchor_commit_resolved_once_witness:
  "list_ex isTagOption [\<lparr>name = None, tag = Some ''a'', draft = False\<rparr>,
                        \<lparr>name = None, tag = Some ''b'', draft = False\<rparr>]
   \<and> fst (runCreate example_repo
         [\<lparr>name = None, tag = Some ''a'', draft = False\<rparr>,
          \<lparr>name = None, tag = Some ''b'', draft = False\<rparr>] start) = Inr ()
   \<and> filter isResolve (trace (snd (runCreate example_repo
         [\<lparr>name = None, tag = Some ''a'', draft = False\<rparr>,
          \<lparr>name = None, tag = Some ''b'', draft = False\<rparr>] start)))
       = [Call (GetBranch ''main'')]
   \<and> Call (CreateRef ''refs/tags/a'' (Some ''f00'')) \<in> set (trace (snd (runCreate example_repo
         [\<lparr>name = None, tag = Some ''a'', draft = False\<rparr>,
          \<lparr>name = None, tag = Some ''b'', draft = False\<rparr>] start)))
   \<and> Call (CreateRef ''refs/tags/b'' (Some ''f00'')) \<in> set (trace (snd (runCreate example_repo
         [\<lparr>name = None, tag = Some ''a'', draft = False\<rparr>,
          \<lparr>name = None, tag = Some ''b'', draft = False\<rparr>] start)))
   \<and> \<not> list_ex isTagOption [\<lparr>name = Some ''R'', tag = Some ''a'', draft = False\<rparr>]
   \<and> filter isResolve (trace (snd (runCreate example_repo
         [\<lparr>name = Some ''R'', tag = Some ''a'', draft = False\<rparr>] start))) = []"
proof -
  have tags: "runCreate example_repo
         [\<lparr>name = None, tag = Some ''a'', draft = False\<rparr>,
          \<lparr>name = None, tag = Some ''b'', draft = False\<rparr>] start =
      (Inr (),
       \<lparr>trace =
          [Call ListReleases, Delay 2500, Call (DeleteRelease 7), Delay 2500,
           Call ListTags, Delay 2500, Call (DeleteRef ''tags/v1''), Delay 2500,
           Call (GetBranch ''main''),
           Call (CreateRef ''refs/tags/a'' (Some ''f00'')), Delay 2500,
           Call (CreateRef ''refs/tags/b'' (Some ''f00'')), Delay 2500],
        printed = [], exitCode = 0\<rparr>)"
    by (rule example_two_tags)
  have two: "list_ex isTagOption [\<lparr>name = None, tag = Some ''a'', draft = False\<rparr>,
                        \<lparr>name = None, tag = Some ''b'', draft = False\<rparr>]"
    by (simp add: isTagOption_def truthy_def)
  have none: "\<not> list_ex isTagOption [\<lparr>name = Some ''R'', tag = Some ''a'', draft = False\<rparr>]"
    by (simp add: isTagOption_def truthy_def)
  show ?thesis
    using anchor_commit_resolved_once [of example_repo
        "[\<lparr>name = None, tag = Some ''a'', draft = False\<rparr>,
          \<lparr>name = None, tag = Some ''b'', draft = False\<rparr>]"]
      anchor_commit_resolved_once [of example_repo
        "[\<lparr>name = Some ''R'', tag = Some ''a'', draft = False\<rparr>]"]
      two none
    by (simp add: tags)
qed

text \<open>
  Claim C5 asks for the pause after every call. On a repository with one release and one
  tag, a create run for one tag pauses after each listing, each delete and the create, but
  goes from the resolution of the branch tip straight to the create-ref call; and a check
  run issues its two listings with no pause at all.
\<close>

theorem resolution_and_check_listings_unpaced:
  "run example_repo [''node'', ''index.js'', ''create'', ''tag:v2''] start =
     (Inr (),
      \<lparr>trace =
         [Call ListReleases, Delay 2500, Call (DeleteRelease 7), Delay 2500,
          Call ListTags, Delay 2500, Call (DeleteRef ''tags/v1''), Delay 2500,
          Call (GetBranch ''main''),
          Call (CreateRef ''refs/tags/v2'' (Some ''f00'')), Delay 2500],
       printed = [], exitCode = 0\<rparr>)
   \<and> run example_repo [''node'', ''index.js'', ''check'', ''tag:v1''] start =
     (Inr (), \<lparr>trace = [Call ListTags, Call ListReleases], printed = [], exitCode = 0\<rparr>)"
proof
  show "run example_repo [''node'', ''index.js'', ''create'', ''tag:v2''] start =
     (Inr (),
      \<lparr>trace =
         [Call ListReleases, Delay 2500, Call (DeleteRelease 7), Delay 2500,
          Call ListTags, Delay 2500, Call (DeleteRef ''tags/v1''), Delay 2500,
          Call (GetBranch ''main''),
          Call (CreateRef ''refs/tags/v2'' (Some ''f00'')), Delay 2500],
       printed = [], exitCode = 0\<rparr>)"
    by (rule example_create_run)
  show "run example_repo [''node'', ''index.js'', ''check'', ''tag:v1''] start =
     (Inr (), \<lparr>trace = [Call ListTags, Call ListReleases], printed = [], exitCode = 0\<rparr>)"
    by code_simp
qed

end
